(* ===== verification/Prelude.thy ===== *)
theory Prelude
  imports Main "HOL-Library.AList" "HOL-Library.Sublist"
begin

text \<open>
  Shared vocabulary of the development. Process ids and ports are Python
  \<open>int\<close>s and are modelled as unbounded \<^typ>\<open>int\<close>. The Python exceptions that the
  two scripts raise or catch form one datatype, so that every \<open>raise\<close> and every
  \<open>except\<close> of the source is a branch of a sum type. The named collections gather
  the evaluation rules of the string layer and the frame rules of the OS world,
  so that component proofs can say \<open>simp add: pystr_simps\<close>.
\<close>

named_theorems pystr_simps "evaluation rules of the modelled Python string primitives"
named_theorems world_simps "frame rules of the modelled operating-system world"

type_synonym pid = int
type_synonym port = int

text \<open>
  The exceptions of the scripts: \<open>ValueError\<close> from \<open>int()\<close> or a failed tuple
  unpacking (with the offending text), \<open>IndexError\<close> from \<open>parts[1]\<close>,
  \<open>CalledProcessError\<close> from \<open>check_output\<close> on a non-zero exit status,
  \<open>FileNotFoundError\<close> when an external tool is not installed, and the two
  \<open>OSError\<close>s that \<open>os.kill\<close> raises.
\<close>

datatype py_exc =
    ValueError string
  | IndexError
  | CalledProcessError int
  | FileNotFoundError string
  | PermissionError
  | ProcessLookupError

text \<open>\<open>str(e)\<close> of each exception, as the scripts print it.\<close>

definition exc_str :: "py_exc \<Rightarrow> string" where
  "exc_str e = (case e of
      ValueError s \<Rightarrow> ''invalid literal for int() with base 10: '' @ [CHR 0x27] @ s @ [CHR 0x27]
    | IndexError \<Rightarrow> ''list index out of range''
    | CalledProcessError n \<Rightarrow> ''Command returned non-zero exit status''
    | FileNotFoundError f \<Rightarrow> ''[Errno 2] No such file or directory: '' @ [CHR 0x27] @ f @ [CHR 0x27]
    | PermissionError \<Rightarrow> ''[Errno 1] Operation not permitted''
    | ProcessLookupError \<Rightarrow> ''[Errno 3] No such process'')"

subsection \<open>Generic lemmas on lists and association lists\<close>

lemma strict_sorted_sort_distinct:
  "distinct xs \<Longrightarrow> sorted_wrt (<) (sort (xs :: 'a :: linorder list))"
  by (simp add: strict_sorted_iff)

lemma map_fst_map_lookup:
  "map fst (map (\<lambda>p. (p, f p)) xs) = xs"
  by (induction xs) auto

lemma distinct_fst_delete [simp]:
  "distinct (map fst al) \<Longrightarrow> distinct (map fst (AList.delete k al))"
  by (simp add: AList.distinct_delete)

lemma distinct_fst_update [simp]:
  "distinct (map fst al) \<Longrightarrow> distinct (map fst (AList.update k v al))"
  by (simp add: AList.distinct_update)

lemma keys_delete [simp]:
  "fst ` set (AList.delete k al) = fst ` set al - {k}"
  by (auto simp: AList.delete_eq)

lemma map_of_SomeD_keys:
  "map_of al k = Some v \<Longrightarrow> k \<in> fst ` set al"
  by (force dest: map_of_SomeD)

end
