(* ===== verification/PyStr.thy ===== *)
theory PyStr
  imports Prelude
begin

text \<open>
  The Python 3 string operations the two scripts use, on strings whose code points
  are below 256 (one \<^typ>\<open>char\<close> per code point): \<open>str.isspace\<close>, \<open>str.strip()\<close>,
  \<open>str.split()\<close>, \<open>str.split(maxsplit=1)\<close>, \<open>str.split(sep)\<close>,
  \<open>str.splitlines()\<close>, \<open>str.lower()\<close>, \<open>str.isdigit()\<close>, the \<open>in\<close> operator,
  \<open>str.endswith\<close>, \<open>int(s)\<close> in base 10 and \<open>str(n)\<close>. They are library
  semantics (CPython's \<open>Objects/unicodeobject.c\<close>), not code of the repository, so
  they carry no source map; each is written from CPython's algorithm and
  characterised by the lemmas of this theory.
\<close>

subsection \<open>Character classes\<close>

text \<open>
  \<open>str.isspace\<close> below 256: TAB, LF, VT, FF, CR (9-13), the separators 28-31,
  SPACE, NEL (133) and NBSP (160). Line boundaries of \<open>splitlines\<close>: LF, VT, FF,
  CR, 28-30 and NEL (not 31, not NBSP).
\<close>

definition py_isspace :: "char \<Rightarrow> bool" where
  "py_isspace c \<longleftrightarrow> (let n = of_char c :: nat in
     (9 \<le> n \<and> n \<le> 13) \<or> (28 \<le> n \<and> n \<le> 32) \<or> n = 133 \<or> n = 160)"

definition py_is_linebreak :: "char \<Rightarrow> bool" where
  "py_is_linebreak c \<longleftrightarrow> (let n = of_char c :: nat in
     (10 \<le> n \<and> n \<le> 13) \<or> (28 \<le> n \<and> n \<le> 30) \<or> n = 133)"

text \<open>
  \<open>\d\<close> of \<open>re\<close> and the digits \<open>int()\<close> accepts are the decimal digits; below
  256 these are \<open>0\<close>-\<open>9\<close>. \<open>str.isdigit\<close> accepts the superscripts
  \<open>\<^sup>2\<close>, \<open>\<^sup>3\<close>, \<open>\<^sup>1\<close> (178, 179, 185) as well.
\<close>

definition is_ascii_digit :: "char \<Rightarrow> bool" where
  "is_ascii_digit c \<longleftrightarrow> (let n = of_char c :: nat in 48 \<le> n \<and> n \<le> 57)"

definition py_isdigit_char :: "char \<Rightarrow> bool" where
  "py_isdigit_char c \<longleftrightarrow> is_ascii_digit c \<or> of_char c \<in> {178, 179, 185 :: nat}"

definition py_isdigit :: "string \<Rightarrow> bool" where
  "py_isdigit s \<longleftrightarrow> s \<noteq> [] \<and> list_all py_isdigit_char s"

text \<open>
  \<open>str.lower\<close> below 256 maps \<open>A\<close>-\<open>Z\<close> and the Latin-1 capitals 192-222
  except the multiplication sign 215 to the character 32 above, which is the
  character with bit 5 set.
\<close>

definition py_lower_char :: "char \<Rightarrow> char" where
  "py_lower_char c = (let n = of_char c :: nat in
     if (65 \<le> n \<and> n \<le> 90) \<or> (192 \<le> n \<and> n \<le> 222 \<and> n \<noteq> 215)
     then (case c of Char b0 b1 b2 b3 b4 b5 b6 b7 \<Rightarrow> Char b0 b1 b2 b3 b4 True b6 b7)
     else c)"

definition py_lower :: "string \<Rightarrow> string" where
  "py_lower s = map py_lower_char s"

subsection \<open>Stripping and splitting\<close>

definition py_strip :: "string \<Rightarrow> string" where
  "py_strip s = rev (dropWhile py_isspace (rev (dropWhile py_isspace s)))"

text \<open>\<open>str.split()\<close>: runs of whitespace separate, empty fields are dropped.\<close>

fun py_split_ws :: "string \<Rightarrow> string \<Rightarrow> string list" where
  "py_split_ws cur [] = (if cur = [] then [] else [cur])"
| "py_split_ws cur (c # cs) =
     (if py_isspace c
      then (if cur = [] then py_split_ws [] cs else cur # py_split_ws [] cs)
      else py_split_ws (cur @ [c]) cs)"

definition py_split :: "string \<Rightarrow> string list" where
  "py_split s = py_split_ws [] s"

text \<open>
  \<open>str.split(maxsplit=1)\<close>, after CPython's \<open>split_whitespace\<close>: skip
  whitespace, take one field, skip whitespace, and the rest (trailing whitespace
  included) is the second field if it is not empty.
\<close>

definition py_split_max1 :: "string \<Rightarrow> string list" where
  "py_split_max1 s =
     (let s1 = dropWhile py_isspace s in
      if s1 = [] then []
      else let tok = takeWhile (\<lambda>c. \<not> py_isspace c) s1;
               r = dropWhile py_isspace (dropWhile (\<lambda>c. \<not> py_isspace c) s1)
           in if r = [] then [tok] else [tok, r])"

text \<open>\<open>str.split(sep)\<close> for a one-character separator: every separator splits.\<close>

fun py_split_sep_aux :: "char \<Rightarrow> string \<Rightarrow> string \<Rightarrow> string list" where
  "py_split_sep_aux d cur [] = [cur]"
| "py_split_sep_aux d cur (c # cs) =
     (if c = d then cur # py_split_sep_aux d [] cs else py_split_sep_aux d (cur @ [c]) cs)"

definition py_split_sep :: "char \<Rightarrow> string \<Rightarrow> string list" where
  "py_split_sep d s = py_split_sep_aux d [] s"

text \<open>
  \<open>str.splitlines()\<close>: CR LF counts as one boundary; a final boundary does not
  start an empty last line.
\<close>

function py_splitlines_aux :: "string \<Rightarrow> string \<Rightarrow> string list" where
  "py_splitlines_aux cur [] = (if cur = [] then [] else [cur])"
| "py_splitlines_aux cur (c # cs) =
     (if c = CHR 0x0D
      then cur # py_splitlines_aux [] (if cs \<noteq> [] \<and> hd cs = CHR 0x0A then tl cs else cs)
      else if py_is_linebreak c then cur # py_splitlines_aux [] cs
      else py_splitlines_aux (cur @ [c]) cs)"
  by pat_completeness auto
termination
  by (relation "measure (\<lambda>(cur, s). length s)") auto

definition py_splitlines :: "string \<Rightarrow> string list" where
  "py_splitlines s = py_splitlines_aux [] s"

subsection \<open>Substrings\<close>

fun starts_with :: "'a list \<Rightarrow> 'a list \<Rightarrow> bool" where
  "starts_with [] s = True"
| "starts_with (x # xs) [] = False"
| "starts_with (x # xs) (y # ys) = (x = y \<and> starts_with xs ys)"

text \<open>\<open>needle in hay\<close>: the needle starts at some position of the haystack.\<close>

fun py_in :: "'a list \<Rightarrow> 'a list \<Rightarrow> bool" where
  "py_in n [] = (n = [])"
| "py_in n (h # hs) = (starts_with n (h # hs) \<or> py_in n hs)"

definition py_endswith :: "string \<Rightarrow> string \<Rightarrow> bool" where
  "py_endswith s suf = starts_with (rev suf) (rev s)"

subsection \<open>Integers and their decimal text\<close>

definition digit_val :: "char \<Rightarrow> nat" where
  "digit_val c = of_char c - 48"

definition digit_char :: "nat \<Rightarrow> char" where
  "digit_char d = ''0123456789'' ! d"

text \<open>
  The body of a base-10 literal that \<open>int()\<close> accepts: digits, with single
  underscores allowed between two digits (PEP 515).
\<close>

definition dec_body_ok :: "string \<Rightarrow> bool" where
  "dec_body_ok s \<longleftrightarrow> s \<noteq> [] \<and> is_ascii_digit (hd s) \<and> is_ascii_digit (last s)
     \<and> list_all (\<lambda>c. is_ascii_digit c \<or> c = CHR ''_'') s \<and> \<not> py_in ''__'' s"

definition dec_value :: "string \<Rightarrow> nat" where
  "dec_value s = foldl (\<lambda>acc c. 10 * acc + digit_val c) 0 (filter is_ascii_digit s)"

text \<open>
  \<open>int(s)\<close>: surrounding whitespace is ignored, one sign is allowed, and anything
  else raises \<open>ValueError\<close>.
\<close>

definition py_int :: "string \<Rightarrow> py_exc + int" where
  "py_int s =
     (let t = py_strip s;
          (neg, body) = (case t of
              [] \<Rightarrow> (False, [])
            | c # r \<Rightarrow> (if c = CHR ''-'' then (True, r)
                       else if c = CHR ''+'' then (False, r) else (False, t)))
      in if dec_body_ok body
         then Inr (if neg then - int (dec_value body) else int (dec_value body))
         else Inl (ValueError s))"

fun nat_digits :: "nat \<Rightarrow> string" where
  "nat_digits n = (if n < 10 then [digit_char n] else nat_digits (n div 10) @ [digit_char (n mod 10)])"

declare nat_digits.simps [simp del]

definition py_str_int :: "int \<Rightarrow> string" where
  "py_str_int i = (if i < 0 then CHR ''-'' # nat_digits (nat (- i)) else nat_digits (nat i))"

subsection \<open>Characterisation lemmas\<close>

lemma starts_with_prefix [pystr_simps]: "starts_with xs ys \<longleftrightarrow> prefix xs ys"
  by (induction xs ys rule: starts_with.induct) auto

lemma py_in_sublist: "py_in n h \<longleftrightarrow> sublist n h"
  by (induction n h rule: py_in.induct) (auto simp: starts_with_prefix sublist_Cons_right)

lemma py_endswith_suffix: "py_endswith s suf \<longleftrightarrow> suffix suf s"
  by (simp add: py_endswith_def starts_with_prefix suffix_to_prefix)

lemma digit_char_of: "d < 10 \<Longrightarrow> of_char (digit_char d) = (48 + d :: nat)"
  by (auto simp: digit_char_def less_Suc_eq numeral_eq_Suc)

lemma is_ascii_digit_digit_char [simp]: "d < 10 \<Longrightarrow> is_ascii_digit (digit_char d)"
  by (simp add: digit_char_of is_ascii_digit_def)

lemma digit_val_digit_char [simp]: "d < 10 \<Longrightarrow> digit_val (digit_char d) = d"
  by (simp add: digit_char_of digit_val_def)

lemma ascii_digit_not_space: "is_ascii_digit c \<Longrightarrow> \<not> py_isspace c"
  by (auto simp: is_ascii_digit_def py_isspace_def Let_def)

lemma nat_digits_nonempty [simp]: "nat_digits n \<noteq> []"
  by (subst nat_digits.simps) simp

lemma nat_digits_digits: "list_all is_ascii_digit (nat_digits n)"
proof (induction n rule: nat_digits.induct)
  case (1 n)
  then show ?case by (subst nat_digits.simps) auto
qed

lemma dec_value_append_digit:
  "is_ascii_digit c \<Longrightarrow> dec_value (s @ [c]) = 10 * dec_value s + digit_val c"
  by (simp add: dec_value_def)

lemma dec_value_nat_digits: "dec_value (nat_digits n) = n"
proof (induction n rule: nat_digits.induct)
  case (1 n)
  show ?case
  proof (cases "n < 10")
    case True
    then show ?thesis by (subst nat_digits.simps) (simp add: dec_value_def)
  next
    case False
    then have "dec_value (nat_digits n) = 10 * dec_value (nat_digits (n div 10)) + n mod 10"
      by (subst nat_digits.simps) (simp add: dec_value_append_digit)
    with False "1.IH" show ?thesis by simp
  qed
qed

lemma py_in_all_digits: "list_all is_ascii_digit s \<Longrightarrow> \<not> py_in ''__'' s"
  by (induction s) (auto simp: is_ascii_digit_def)

lemma dec_body_ok_digits:
  "s \<noteq> [] \<Longrightarrow> list_all is_ascii_digit s \<Longrightarrow> dec_body_ok s"
  by (auto simp: dec_body_ok_def list_all_iff py_in_all_digits)

lemma dropWhile_none: "(\<forall>c\<in>set s. \<not> P c) \<Longrightarrow> dropWhile P s = s"
  by (induction s) auto

lemma py_strip_nospace: "(\<forall>c\<in>set s. \<not> py_isspace c) \<Longrightarrow> py_strip s = s"
  by (simp add: py_strip_def dropWhile_none)

lemma py_str_int_nospace: "\<forall>c\<in>set (py_str_int i). \<not> py_isspace c"
proof -
  have "\<not> py_isspace CHR ''-''" by (simp add: py_isspace_def)
  then show ?thesis
    using nat_digits_digits [of "nat (- i)"] nat_digits_digits [of "nat i"]
    by (auto simp: py_str_int_def list_all_iff dest: ascii_digit_not_space)
qed

lemma sign_not_digit: "\<not> is_ascii_digit CHR ''-''" "\<not> is_ascii_digit CHR ''+''"
  by (simp_all add: is_ascii_digit_def)

lemma py_int_nat_digits: "py_int (nat_digits n) = Inr (int n)"
proof -
  obtain c r where cr: "nat_digits n = c # r" by (cases "nat_digits n") auto
  have dig: "list_all is_ascii_digit (nat_digits n)" by (rule nat_digits_digits)
  with cr have "c \<noteq> CHR ''-''" "c \<noteq> CHR ''+''" using sign_not_digit by auto
  moreover have "py_strip (nat_digits n) = nat_digits n"
    using dig by (auto simp: list_all_iff ascii_digit_not_space intro: py_strip_nospace)
  moreover have "dec_value (c # r) = n" using dec_value_nat_digits [of n] cr by simp
  ultimately show ?thesis
    using cr dig by (simp add: py_int_def dec_body_ok_digits)
qed

theorem py_int_py_str_int: "py_int (py_str_int i) = Inr i"
proof (cases "i < 0")
  case True
  have dig: "list_all is_ascii_digit (nat_digits (nat (- i)))" by (rule nat_digits_digits)
  have "py_strip (py_str_int i) = py_str_int i" by (rule py_strip_nospace [OF py_str_int_nospace])
  with True dig show ?thesis
    by (simp add: py_int_def py_str_int_def dec_body_ok_digits dec_value_nat_digits)
next
  case False
  then show ?thesis by (simp add: py_str_int_def py_int_nat_digits)
qed

lemma set_py_strip: "set (py_strip s) \<subseteq> set s"
proof -
  have "set (dropWhile py_isspace (rev (dropWhile py_isspace s))) \<subseteq> set (rev (dropWhile py_isspace s))"
    by (auto dest: set_dropWhileD)
  also have "\<dots> \<subseteq> set s" by (auto dest: set_dropWhileD)
  finally show ?thesis by (simp add: py_strip_def)
qed

lemma py_int_nonneg: "py_int s = Inr i \<Longrightarrow> CHR ''-'' \<notin> set s \<Longrightarrow> 0 \<le> i"
proof -
  assume ok: "py_int s = Inr i" and nm: "CHR ''-'' \<notin> set s"
  have "CHR ''-'' \<notin> set (py_strip s)" using nm set_py_strip by blast
  with ok show ?thesis
    by (auto simp: py_int_def Let_def split: list.splits if_splits)
qed

lemma py_isdigit_no_minus: "py_isdigit s \<Longrightarrow> CHR ''-'' \<notin> set s"
  by (auto simp: py_isdigit_def list_all_iff py_isdigit_char_def is_ascii_digit_def)

lemma py_int_digits: "d \<noteq> [] \<Longrightarrow> list_all is_ascii_digit d \<Longrightarrow> py_int d = Inr (int (dec_value d))"
proof -
  assume ne: "d \<noteq> []" and dig: "list_all is_ascii_digit d"
  then obtain c r where cr: "d = c # r" by (cases d) auto
  have strip: "py_strip d = d"
    using dig by (auto simp: list_all_iff ascii_digit_not_space intro: py_strip_nospace)
  from dig cr have "c \<noteq> CHR ''-''" "c \<noteq> CHR ''+''" using sign_not_digit by auto
  with strip cr ne dig show ?thesis by (simp add: py_int_def dec_body_ok_digits)
qed

lemma isdigit_int_nonneg: "py_isdigit s \<Longrightarrow> py_int s = Inr i \<Longrightarrow> 0 \<le> i"
  by (metis py_int_nonneg py_isdigit_no_minus)

lemma py_int_Inl: "py_int s = Inl e \<Longrightarrow> e = ValueError s"
  by (auto simp: py_int_def Let_def split: prod.splits if_splits)

end
