(* ===== verification/Os.thy ===== *)
theory Os
  imports PyStr
begin

text \<open>
  The operating system as the scripts see it. A \<open>world\<close> holds the process
  table (a finite association list from pid to process, keys distinct), the pid of
  the running interpreter, the lines printed so far, and the output of each
  external command at the time the script calls it (\<open>ps -eo pid,cmd\<close>,
  \<open>ps aux\<close>, \<open>ps -p PID -o cmd=\<close>, \<open>lsof -i :PORT -sTCP:LISTEN -n -P\<close>,
  \<open>ss -ltnp\<close>); these outputs are arbitrary, so every theorem holds for every
  output the tools may print. \<open>os_kill\<close> is Linux \<open>kill(2)\<close>: positive pids,
  pid 0 (the caller's process group), pid -1 (every process but init and the
  caller) and pids below -1 (a process group). Once the interpreter's own process
  is gone it performs no further effect, which is how a script that signals itself
  stops. Zombies and signal handlers other than "exit on SIGTERM" are not
  modelled.
\<close>

datatype signal = SIG0 | SIGTERM | SIGKILL

record proc =
  cmdline :: string
  may_signal :: bool
  exits_on_term :: bool
  pgid :: pid

text \<open>The result of running an external command: its exit status and standard
  output, or the executable is not installed.\<close>

datatype tool_out = Ran int string | NotInstalled

record world =
  procs :: "(pid \<times> proc) list"
  my_pid :: pid
  stdout :: "string list"
  ps_eo :: tool_out
  ps_aux :: tool_out
  ps_p :: "pid \<Rightarrow> tool_out"
  lsof :: "port \<Rightarrow> tool_out"
  ss_ltnp :: tool_out

definition self_alive :: "world \<Rightarrow> bool" where
  "self_alive w \<longleftrightarrow> map_of (procs w) (my_pid w) \<noteq> None"

definition print_line :: "string \<Rightarrow> world \<Rightarrow> world" where
  "print_line s w = (if self_alive w then w\<lparr>stdout := stdout w @ [s]\<rparr> else w)"

fun print_lines :: "string list \<Rightarrow> world \<Rightarrow> world" where
  "print_lines [] w = w"
| "print_lines (s # ss) w = print_lines ss (print_line s w)"

text \<open>\<open>subprocess.check_output\<close> raises on a missing executable and on a non-zero
  exit status; \<open>subprocess.run\<close> without \<open>check\<close> raises only on the first.\<close>

definition check_output :: "tool_out \<Rightarrow> string \<Rightarrow> py_exc + string" where
  "check_output t name = (case t of
      NotInstalled \<Rightarrow> Inl (FileNotFoundError name)
    | Ran st out \<Rightarrow> (if st = 0 then Inr out else Inl (CalledProcessError st)))"

definition run_stdout :: "tool_out \<Rightarrow> string \<Rightarrow> py_exc + string" where
  "run_stdout t name = (case t of NotInstalled \<Rightarrow> Inl (FileNotFoundError name) | Ran st out \<Rightarrow> Inr out)"

subsection \<open>kill(2)\<close>

datatype kill_err = ESRCH | EPERM

definition kill_exc :: "kill_err \<Rightarrow> py_exc" where
  "kill_exc e = (case e of ESRCH \<Rightarrow> ProcessLookupError | EPERM \<Rightarrow> PermissionError)"

definition kill_targets :: "pid \<Rightarrow> world \<Rightarrow> (pid \<times> proc) list" where
  "kill_targets pid w = filter (\<lambda>(q, p).
      if 0 < pid then q = pid
      else if pid = 0 then Some (pgid p) = map_option pgid (map_of (procs w) (my_pid w))
      else if pid = -1 then q \<noteq> 1 \<and> q \<noteq> my_pid w
      else pgid p = - pid) (procs w)"

definition survives :: "signal \<Rightarrow> proc \<Rightarrow> bool" where
  "survives sig p = (case sig of SIG0 \<Rightarrow> True | SIGTERM \<Rightarrow> \<not> exits_on_term p | SIGKILL \<Rightarrow> False)"

text \<open>
  No target is \<open>ESRCH\<close>; targets none of which the caller may signal is
  \<open>EPERM\<close>; otherwise every target the caller may signal receives the signal and
  those that do not survive it leave the table.
\<close>

definition os_kill :: "pid \<Rightarrow> signal \<Rightarrow> world \<Rightarrow> kill_err + world" where
  "os_kill pid sig w =
     (if \<not> self_alive w then Inr w
      else let ts = kill_targets pid w in
        if ts = [] then Inl ESRCH
        else if \<not> list_ex (\<lambda>(q, p). may_signal p) ts then Inl EPERM
        else Inr (w\<lparr>procs := filter (\<lambda>(q, p). \<not> ((q, p) \<in> set ts \<and> may_signal p \<and> \<not> survives sig p))
                                   (procs w)\<rparr>))"

text \<open>The invariant of the process table: one entry per pid.\<close>
definition procs_ok :: "world \<Rightarrow> bool" where
  "procs_ok w \<longleftrightarrow> distinct (map fst (procs w))"

subsection \<open>Frame and characterisation lemmas\<close>

lemma print_line_procs [simp, world_simps]: "procs (print_line s w) = procs w"
  and print_line_my_pid [simp, world_simps]: "my_pid (print_line s w) = my_pid w"
  and print_line_self_alive [simp, world_simps]: "self_alive (print_line s w) = self_alive w"
  by (simp_all add: print_line_def self_alive_def)

lemma print_lines_procs [simp, world_simps]: "procs (print_lines ss w) = procs w"
  and print_lines_my_pid [simp, world_simps]: "my_pid (print_lines ss w) = my_pid w"
  by (induction ss arbitrary: w) simp_all

lemma os_kill_Inr_shape:
  "os_kill pid sig w = Inr w' \<Longrightarrow> w' = w\<lparr>procs := procs w'\<rparr> \<and> set (procs w') \<subseteq> set (procs w)"
  by (auto simp: os_kill_def Let_def split: if_splits)

lemma os_kill_Inl_shape: "os_kill pid sig w = Inl e \<Longrightarrow> self_alive w"
  by (auto simp: os_kill_def Let_def split: if_splits)

lemma kill_targets_pos:
  "0 < pid \<Longrightarrow> distinct (map fst (procs w)) \<Longrightarrow>
   kill_targets pid w = (case map_of (procs w) pid of None \<Rightarrow> [] | Some p \<Rightarrow> [(pid, p)])"
proof -
  assume pos: "0 < pid" and d: "distinct (map fst (procs w))"
  have "filter (\<lambda>(q, p). q = pid) ps = (case map_of ps pid of None \<Rightarrow> [] | Some p \<Rightarrow> [(pid, p)])"
    if "distinct (map fst ps)" for ps :: "(pid \<times> proc) list"
    using that by (induction ps) (auto split: option.splits dest: map_of_SomeD simp: filter_empty_conv image_iff)
  with pos d show ?thesis by (simp add: kill_targets_def)
qed

lemma os_kill_pos:
  assumes pos: "0 < pid" and d: "distinct (map fst (procs w))" and alive: "self_alive w"
  shows "os_kill pid sig w = (case map_of (procs w) pid of
            None \<Rightarrow> Inl ESRCH
          | Some p \<Rightarrow> if may_signal p
                      then Inr (w\<lparr>procs := (if survives sig p then procs w else AList.delete pid (procs w))\<rparr>)
                      else Inl EPERM)"
proof (cases "map_of (procs w) pid")
  case None
  with pos d alive show ?thesis by (simp add: os_kill_def kill_targets_pos)
next
  case (Some p)
  have uniq: "(pid, p') \<in> set (procs w) \<Longrightarrow> p' = p" for p'
    using d Some by (simp add: map_of_is_SomeI)
  have "filter (\<lambda>(q, p'). \<not> ((q, p') \<in> set [(pid, p)] \<and> may_signal p' \<and> \<not> survives sig p')) (procs w)
        = (if may_signal p \<and> \<not> survives sig p then AList.delete pid (procs w) else procs w)"
    using uniq by (auto simp: AList.delete_eq intro!: filter_cong filter_True)
  with pos d alive Some show ?thesis by (auto simp: os_kill_def kill_targets_pos)
qed

subsection \<open>Signalling a positive pid\<close>

lemma os_kill_pos_Inr:
  assumes "0 < pid" "procs_ok w" "self_alive w" "os_kill pid sig w = Inr w'"
  shows "w' = w\<lparr>procs := procs w'\<rparr>" and "procs_ok w'" and "set (procs w') \<subseteq> set (procs w)"
    and "\<And>q pr. (q, pr) \<in> set (procs w) \<Longrightarrow> (q, pr) \<notin> set (procs w') \<Longrightarrow> q = pid \<and> may_signal pr"
    and "sig = SIGKILL \<Longrightarrow> map_of (procs w') pid = None"
    and "\<exists>pr. map_of (procs w) pid = Some pr \<and> may_signal pr"
    and "set (procs w') = {x \<in> set (procs w). \<not> (fst x = pid \<and> \<not> survives sig (snd x))}"
proof -
  from assms obtain p where p: "map_of (procs w) pid = Some p" and ms: "may_signal p"
    and w': "w' = w\<lparr>procs := (if survives sig p then procs w else AList.delete pid (procs w))\<rparr>"
    by (auto simp: os_kill_pos procs_ok_def split: option.splits if_splits)
  have uniq: "(pid, pr) \<in> set (procs w) \<Longrightarrow> pr = p" for pr
    using assms(2) p by (auto simp: procs_ok_def dest: map_of_SomeD eq_key_imp_eq_value)
  show "w' = w\<lparr>procs := procs w'\<rparr>" using w' by simp
  show "procs_ok w'" using assms(2) w' by (simp add: procs_ok_def)
  show "set (procs w') \<subseteq> set (procs w)" using w' by (auto simp: AList.delete_eq)
  show "sig = SIGKILL \<Longrightarrow> map_of (procs w') pid = None"
    using w' by (simp add: survives_def delete_conv')
  show "(q, pr) \<in> set (procs w) \<Longrightarrow> (q, pr) \<notin> set (procs w') \<Longrightarrow> q = pid \<and> may_signal pr" for q pr
    using w' ms uniq by (auto simp: AList.delete_eq split: if_splits)
  show "\<exists>pr. map_of (procs w) pid = Some pr \<and> may_signal pr" using p ms by blast
  show "set (procs w') = {x \<in> set (procs w). \<not> (fst x = pid \<and> \<not> survives sig (snd x))}"
    using w' uniq by (auto simp: AList.delete_eq)
qed

lemma os_kill_pos_Inl:
  "0 < pid \<Longrightarrow> procs_ok w \<Longrightarrow> self_alive w \<Longrightarrow> os_kill pid sig w = Inl e \<Longrightarrow>
   (e = ESRCH \<and> map_of (procs w) pid = None)
   \<or> (e = EPERM \<and> (\<exists>pr. map_of (procs w) pid = Some pr \<and> \<not> may_signal pr))"
  by (auto simp: os_kill_pos procs_ok_def split: option.splits if_splits)

lemma os_kill_pos_keeps_self:
  assumes "0 < pid" "pid \<noteq> my_pid w" "procs_ok w" "self_alive w" "os_kill pid sig w = Inr w'"
  shows "self_alive w' \<and> my_pid w' = my_pid w"
proof -
  note step = os_kill_pos_Inr [OF assms(1,3,4,5)]
  from assms(4) obtain m where m: "(my_pid w, m) \<in> set (procs w)"
    by (auto simp: self_alive_def dest: map_of_SomeD)
  with step(4) assms(2) have "(my_pid w, m) \<in> set (procs w')" by blast
  moreover have "my_pid w' = my_pid w" using step(1) by (metis world.select_convs(2) world.surjective world.update_convs(1))
  ultimately show ?thesis by (force simp: self_alive_def map_of_eq_None_iff)
qed

lemma procs_ok_print_line [simp, world_simps]: "procs_ok (print_line s w) = procs_ok w"
  by (simp add: procs_ok_def)

lemma procs_ok_unique:
  "procs_ok w \<Longrightarrow> (p, a) \<in> set (procs w) \<Longrightarrow> (p, b) \<in> set (procs w) \<Longrightarrow> a = b"
  by (auto simp: procs_ok_def dest: eq_key_imp_eq_value)

lemma os_kill_procs_ok: "procs_ok w \<Longrightarrow> os_kill pid sig w = Inr w' \<Longrightarrow> procs_ok w'"
  by (auto simp: os_kill_def Let_def procs_ok_def distinct_map_filter split: if_splits)

lemma os_kill_dead: "\<not> self_alive w \<Longrightarrow> os_kill pid sig w = Inr w"
  and print_line_dead: "\<not> self_alive w \<Longrightarrow> print_line s w = w"
  by (simp_all add: os_kill_def print_line_def)

lemma print_lines_self_alive [simp, world_simps]: "self_alive (print_lines ss w) = self_alive w"
  and procs_ok_print_lines [simp, world_simps]: "procs_ok (print_lines ss w) = procs_ok w"
  by (simp_all add: self_alive_def procs_ok_def)

lemma os_kill_Inr_frame: "os_kill pid sig w = Inr w' \<Longrightarrow> my_pid w' = my_pid w \<and> stdout w' = stdout w"
  by (auto simp: os_kill_def Let_def split: if_splits)

lemma procs_ok_entry:
  "procs_ok w \<Longrightarrow> map_of (procs w) p = Some r \<Longrightarrow> x \<in> set (procs w) \<Longrightarrow> fst x = p \<Longrightarrow> snd x = r"
  by (cases x) (auto simp: procs_ok_def dest: map_of_SomeD eq_key_imp_eq_value)

lemma map_of_None_entry: "map_of xs p = None \<Longrightarrow> x \<in> set xs \<Longrightarrow> fst x \<noteq> p"
  by (auto simp: map_of_eq_None_iff)

lemma print_line_length:
  "length (stdout (print_line s w)) = length (stdout w) + (if self_alive w then 1 else 0)"
  by (simp add: print_line_def)

end
