(* ===== verification/Kill.thy ===== *)
theory Kill
  imports Os
begin

text \<open>
  \<open>process_alive\<close> and \<open>kill_processes\<close> of \<open>src/scripts/kill.py\<close>: a SIGTERM pass
  over the matched processes, one second of sleep, and a SIGKILL pass over those
  still alive, collecting the pids that could not be signalled. The sleep is a
  parameter: what the rest of the system does in that second.
\<close>

definition process_alive :: "pid \<Rightarrow> world \<Rightarrow> bool" where
  "process_alive pid w = (case os_kill pid SIG0 w of Inr _ \<Rightarrow> True | Inl _ \<Rightarrow> False)"

text \<open>One iteration of the SIGTERM loop (lines 119-125): print, signal, and on
  \<open>ProcessLookupError\<close> continue, on \<open>PermissionError\<close> record the pid.\<close>

definition term_one :: "pid \<Rightarrow> string \<Rightarrow> pid list \<times> world \<Rightarrow> pid list \<times> world" where
  "term_one pid cmd st = (case st of (failed, w) \<Rightarrow>
     let w = print_line (''SIGTERM '' @ py_str_int pid @ '' :: '' @ cmd) w in
     (case os_kill pid SIGTERM w of
        Inr w' \<Rightarrow> (failed, w')
      | Inl ESRCH \<Rightarrow> (failed, w)
      | Inl EPERM \<Rightarrow> (failed @ [pid], w)))"

fun term_pass :: "(pid \<times> string) list \<Rightarrow> pid list \<times> world \<Rightarrow> pid list \<times> world" where
  "term_pass [] st = st"
| "term_pass ((pid, cmd) # rest) st = term_pass rest (term_one pid cmd st)"

text \<open>One iteration of the SIGKILL loop (lines 128-133): only a process that
  \<open>process_alive\<close> reports is signalled; any failure records the pid.\<close>

definition kill_one :: "pid \<Rightarrow> string \<Rightarrow> pid list \<times> world \<Rightarrow> pid list \<times> world" where
  "kill_one pid cmd st = (case st of (failed, w) \<Rightarrow>
     if process_alive pid w
     then let w = print_line (''SIGKILL '' @ py_str_int pid @ '' :: '' @ cmd) w in
          (case os_kill pid SIGKILL w of Inr w' \<Rightarrow> (failed, w') | Inl _ \<Rightarrow> (failed @ [pid], w))
     else (failed, w))"

fun kill_pass :: "(pid \<times> string) list \<Rightarrow> pid list \<times> world \<Rightarrow> pid list \<times> world" where
  "kill_pass [] st = st"
| "kill_pass ((pid, cmd) # rest) st = kill_pass rest (kill_one pid cmd st)"

definition kill_processes :: "(world \<Rightarrow> world) \<Rightarrow> (pid \<times> string) list \<Rightarrow> world \<Rightarrow> pid list \<times> world" where
  "kill_processes sleep pids w =
     (case term_pass pids ([], w) of (failed, w) \<Rightarrow> kill_pass pids (failed, sleep w))"

text \<open>
  What the rest of the system may do during the sleep: processes may exit, none
  appears and none changes, the table keeps one entry per pid, the script itself
  keeps running, and nothing else of the world changes.
\<close>

definition sleep_ok :: "(world \<Rightarrow> world) \<Rightarrow> bool" where
  "sleep_ok sleep \<longleftrightarrow> (\<forall>w. sleep w = w\<lparr>procs := procs (sleep w)\<rparr>
      \<and> set (procs (sleep w)) \<subseteq> set (procs w)
      \<and> (procs_ok w \<longrightarrow> procs_ok (sleep w)) \<and> (self_alive w \<longrightarrow> self_alive (sleep w)))"

definition targets_ok :: "(pid \<times> string) list \<Rightarrow> world \<Rightarrow> bool" where
  "targets_ok pids w \<longleftrightarrow> (\<forall>(p, c) \<in> set pids. 0 < p \<and> p \<noteq> my_pid w)"

text \<open>
  The invariant of the SIGTERM pass, relative to the world \<open>w0\<close> it started
  from and the set \<open>D\<close> of pids already handled: exactly the handled processes
  that may be signalled and exit on SIGTERM are gone, and the recorded failures
  are exactly the handled pids whose process the script may not signal.
\<close>

definition term_inv :: "world \<Rightarrow> pid set \<Rightarrow> pid list \<times> world \<Rightarrow> bool" where
  "term_inv w0 D st \<longleftrightarrow> (case st of (f, w) \<Rightarrow>
     procs_ok w \<and> self_alive w \<and> my_pid w = my_pid w0
     \<and> set (procs w) = {x \<in> set (procs w0). \<not> (fst x \<in> D \<and> may_signal (snd x) \<and> exits_on_term (snd x))}
     \<and> set f = {p \<in> D. \<exists>r. (p, r) \<in> set (procs w0) \<and> \<not> may_signal r})"

definition kill_inv :: "world \<Rightarrow> pid set \<Rightarrow> pid list \<Rightarrow> pid list \<times> world \<Rightarrow> bool" where
  "kill_inv w0 D f0 st \<longleftrightarrow> (case st of (f, w) \<Rightarrow>
     procs_ok w \<and> self_alive w \<and> my_pid w = my_pid w0 \<and> f = f0
     \<and> set (procs w) = {x \<in> set (procs w0). \<not> (fst x \<in> D \<and> may_signal (snd x))})"

text \<open>A concrete process table: the script (100), a Jest worker that exits on
  SIGTERM (200), a server that ignores SIGTERM (300) and a Jest run of another
  user (400).\<close>

definition demo_proc :: "string \<Rightarrow> bool \<Rightarrow> bool \<Rightarrow> proc" where
  "demo_proc c m e = \<lparr>cmdline = c, may_signal = m, exits_on_term = e, pgid = 1\<rparr>"

definition kill_demo_world :: world where
  "kill_demo_world = \<lparr>procs = [(100, demo_proc ''python3 scripts/kill.py --kill'' True False),
      (200, demo_proc ''node jest'' True True), (300, demo_proc ''node server.js'' True False),
      (400, demo_proc ''jest --runTestsByPath'' False True)],
    my_pid = 100, stdout = [], ps_eo = NotInstalled, ps_aux = NotInstalled,
    ps_p = (\<lambda>_. NotInstalled), lsof = (\<lambda>_. NotInstalled), ss_ltnp = NotInstalled\<rparr>"

definition kill_demo_targets :: "(pid \<times> string) list" where
  "kill_demo_targets = [(200, ''node jest''), (300, ''node server.js''), (400, ''jest --runTestsByPath'')]"

lemma process_alive_pos:
  "0 < pid \<Longrightarrow> procs_ok w \<Longrightarrow> self_alive w \<Longrightarrow>
   process_alive pid w \<longleftrightarrow> (\<exists>pr. map_of (procs w) pid = Some pr \<and> may_signal pr)"
  by (auto simp: process_alive_def os_kill_pos procs_ok_def split: option.splits)
     (metis eq_key_imp_eq_value)

lemma targets_ok_Cons [simp]:
  "targets_ok ((p, c) # ps) w \<longleftrightarrow> 0 < p \<and> p \<noteq> my_pid w \<and> targets_ok ps w"
  by (simp add: targets_ok_def)

lemma targets_ok_cong: "my_pid w' = my_pid w \<Longrightarrow> targets_ok ps w' = targets_ok ps w"
  by (simp add: targets_ok_def)

lemma term_one_inv:
  assumes inv: "term_inv w0 D st" and ok0: "procs_ok w0" and pos: "0 < pid" "pid \<noteq> my_pid w0"
  shows "term_inv w0 (insert pid D) (term_one pid cmd st)"
proof -
  obtain f w where st: "st = (f, w)" by (cases st)
  define w1 where "w1 = print_line (''SIGTERM '' @ py_str_int pid @ '' :: '' @ cmd) w"
  from inv st have ok1: "procs_ok w1" "self_alive w1" "my_pid w1 = my_pid w0"
    and set1: "set (procs w1) = {x \<in> set (procs w0). \<not> (fst x \<in> D \<and> may_signal (snd x) \<and> exits_on_term (snd x))}"
    and f: "set f = {p \<in> D. \<exists>r. (p, r) \<in> set (procs w0) \<and> \<not> may_signal r}"
    by (simp_all add: term_inv_def w1_def)
  have pos1: "pid \<noteq> my_pid w1" using pos ok1 by simp
  show ?thesis
  proof (cases "os_kill pid SIGTERM w1")
    case (Inr w2)
    note step = os_kill_pos_Inr [OF pos(1) ok1(1,2) Inr]
    note self = os_kill_pos_keeps_self [OF pos(1) pos1 ok1(1,2) Inr]
    from step(6) obtain r where r: "(pid, r) \<in> set (procs w1)" "may_signal r"
      by (auto dest: map_of_SomeD)
    have r0: "(pid, r) \<in> set (procs w0)" using r set1 by auto
    have u: "(pid, b) \<in> set (procs w0) \<Longrightarrow> b = r" for b using procs_ok_unique [OF ok0 _ r0] by blast
    have s2: "set (procs w2) = {x \<in> set (procs w1). \<not> (fst x = pid \<and> exits_on_term (snd x))}"
      using step(7) by (simp add: survives_def)
    have "set (procs w2) = {x \<in> set (procs w0). \<not> (fst x \<in> insert pid D \<and> may_signal (snd x) \<and> exits_on_term (snd x))}"
      using set1 s2 r0 r by (force dest: u)
    moreover have "set f = {p \<in> insert pid D. \<exists>r. (p, r) \<in> set (procs w0) \<and> \<not> may_signal r}"
      using f r0 r by (force dest: u)
    ultimately show ?thesis using st Inr step(2) self ok1 by (simp add: term_one_def term_inv_def w1_def)
  next
    case (Inl e)
    from os_kill_pos_Inl [OF pos(1) ok1(1,2) Inl] show ?thesis
    proof
      assume esrch: "e = ESRCH \<and> map_of (procs w1) pid = None"
      then have none: "x \<in> set (procs w1) \<Longrightarrow> fst x \<noteq> pid" for x
        by (auto simp: map_of_eq_None_iff)
      have s1: "set (procs w1) = {x \<in> set (procs w0). \<not> (fst x \<in> insert pid D \<and> may_signal (snd x) \<and> exits_on_term (snd x))}"
        using set1 none by auto
      have "\<not> ((pid, r) \<in> set (procs w0) \<and> \<not> may_signal r)" for r
        using set1 none by fastforce
      then have "set f = {p \<in> insert pid D. \<exists>r. (p, r) \<in> set (procs w0) \<and> \<not> may_signal r}"
        using f by auto
      with s1 show ?thesis using st Inl esrch ok1 by (simp add: term_one_def term_inv_def w1_def)
    next
      assume eperm: "e = EPERM \<and> (\<exists>pr. map_of (procs w1) pid = Some pr \<and> \<not> may_signal pr)"
      then obtain r where r: "(pid, r) \<in> set (procs w1)" "\<not> may_signal r"
        by (auto dest: map_of_SomeD)
      have r0: "(pid, r) \<in> set (procs w0)" using r set1 by auto
      have u: "(pid, b) \<in> set (procs w0) \<Longrightarrow> b = r" for b using procs_ok_unique [OF ok0 _ r0] by blast
      have "set (procs w1) = {x \<in> set (procs w0). \<not> (fst x \<in> insert pid D \<and> may_signal (snd x) \<and> exits_on_term (snd x))}"
        using set1 r0 r by (force dest: u)
      moreover have "set (f @ [pid]) = {p \<in> insert pid D. \<exists>r. (p, r) \<in> set (procs w0) \<and> \<not> may_signal r}"
        using f r0 r by auto
      ultimately show ?thesis using st Inl eperm ok1 by (simp add: term_one_def term_inv_def w1_def)
    qed
  qed
qed

lemma term_inv_init: "procs_ok w \<Longrightarrow> self_alive w \<Longrightarrow> term_inv w {} ([], w)"
  by (auto simp: term_inv_def)

lemma term_pass_inv:
  "term_inv w0 D st \<Longrightarrow> procs_ok w0 \<Longrightarrow> targets_ok ps w0 \<Longrightarrow>
   term_inv w0 (D \<union> fst ` set ps) (term_pass ps st)"
proof (induction ps arbitrary: D st)
  case Nil
  then show ?case by simp
next
  case (Cons a ps)
  obtain pid cmd where a: "a = (pid, cmd)" by (cases a)
  with Cons.prems have "term_inv w0 (insert pid D) (term_one pid cmd st)"
    by (auto intro: term_one_inv)
  with Cons.IH [of "insert pid D"] Cons.prems a show ?case
    by (simp add: targets_ok_def insert_commute)
qed

lemma kill_one_inv:
  assumes inv: "kill_inv w0 D f0 st" and ok0: "procs_ok w0" and pos: "0 < pid" "pid \<noteq> my_pid w0"
  shows "kill_inv w0 (insert pid D) f0 (kill_one pid cmd st)"
proof -
  obtain f w where st: "st = (f, w)" by (cases st)
  from inv st have ok: "procs_ok w" "self_alive w" "my_pid w = my_pid w0" "f = f0"
    and set0: "set (procs w) = {x \<in> set (procs w0). \<not> (fst x \<in> D \<and> may_signal (snd x))}"
    by (simp_all add: kill_inv_def)
  have pos1: "pid \<noteq> my_pid w" using pos ok by simp
  show ?thesis
  proof (cases "process_alive pid w")
    case True
    define w1 where "w1 = print_line (''SIGKILL '' @ py_str_int pid @ '' :: '' @ cmd) w"
    have ok1: "procs_ok w1" "self_alive w1" "my_pid w1 = my_pid w" "procs w1 = procs w"
      using ok by (simp_all add: w1_def)
    from True process_alive_pos [OF pos(1) ok(1,2)] obtain r
      where r: "(pid, r) \<in> set (procs w)" "may_signal r" by (auto dest: map_of_SomeD)
    have r0: "(pid, r) \<in> set (procs w0)" using r set0 by auto
    have u: "(pid, b) \<in> set (procs w0) \<Longrightarrow> b = r" for b using procs_ok_unique [OF ok0 _ r0] by blast
    show ?thesis
    proof (cases "os_kill pid SIGKILL w1")
      case (Inr w2)
      note step = os_kill_pos_Inr [OF pos(1) ok1(1,2) Inr]
      note self = os_kill_pos_keeps_self [OF pos(1) _ ok1(1,2) Inr]
      have "set (procs w2) = {x \<in> set (procs w). fst x \<noteq> pid}"
        using step(7) ok1(4) by (simp add: survives_def)
      then have "set (procs w2) = {x \<in> set (procs w0). \<not> (fst x \<in> insert pid D \<and> may_signal (snd x))}"
        using set0 r0 r by (force dest: u)
      with self step(2) ok1 pos1 ok st True Inr show ?thesis
        by (simp add: kill_one_def kill_inv_def w1_def)
    next
      case (Inl e)
      from os_kill_pos_Inl [OF pos(1) ok1(1,2) Inl] r ok1(4) ok(1) have False
        by (auto simp: procs_ok_def dest: map_of_SomeD eq_key_imp_eq_value)
      then show ?thesis ..
    qed
  next
    case False
    with process_alive_pos [OF pos(1) ok(1,2)]
    have none: "(pid, b) \<in> set (procs w) \<Longrightarrow> \<not> may_signal b" for b
      using ok(1) by (auto simp: procs_ok_def intro: map_of_is_SomeI)
    have "set (procs w) = {x \<in> set (procs w0). \<not> (fst x \<in> insert pid D \<and> may_signal (snd x))}"
      using set0 none by force
    with ok st False show ?thesis by (simp add: kill_one_def kill_inv_def)
  qed
qed

lemma kill_pass_inv:
  "kill_inv w0 D f0 st \<Longrightarrow> procs_ok w0 \<Longrightarrow> targets_ok ps w0 \<Longrightarrow>
   kill_inv w0 (D \<union> fst ` set ps) f0 (kill_pass ps st)"
proof (induction ps arbitrary: D st)
  case Nil
  then show ?case by simp
next
  case (Cons a ps)
  obtain pid cmd where a: "a = (pid, cmd)" by (cases a)
  with Cons.prems have "kill_inv w0 (insert pid D) f0 (kill_one pid cmd st)"
    by (auto intro: kill_one_inv)
  with Cons.IH [of "insert pid D"] Cons.prems a show ?case
    by (simp add: targets_ok_def insert_commute)
qed

lemma sleep_okD:
  assumes "sleep_ok sleep"
  shows "my_pid (sleep w) = my_pid w" and "set (procs (sleep w)) \<subseteq> set (procs w)"
    and "procs_ok w \<Longrightarrow> procs_ok (sleep w)" and "self_alive w \<Longrightarrow> self_alive (sleep w)"
proof -
  from assms have eq: "sleep w = w\<lparr>procs := procs (sleep w)\<rparr>" by (simp add: sleep_ok_def)
  show "my_pid (sleep w) = my_pid w" by (subst eq) simp
  show "set (procs (sleep w)) \<subseteq> set (procs w)" "procs_ok w \<Longrightarrow> procs_ok (sleep w)"
    "self_alive w \<Longrightarrow> self_alive (sleep w)" using assms by (simp_all add: sleep_ok_def)
qed

lemma sleep_ok_id: "sleep_ok id"
  by (simp add: sleep_ok_def)

lemma kill_processes_effect:
  assumes sl: "sleep_ok sleep" and ok: "procs_ok w" "self_alive w" and tg: "targets_ok pids w"
    and run: "kill_processes sleep pids w = (failed, w')"
  shows "set failed = {p \<in> fst ` set pids. \<exists>r. (p, r) \<in> set (procs w) \<and> \<not> may_signal r}"
    and "self_alive w'" and "my_pid w' = my_pid w"
    and "set (procs w') = {x \<in> set (procs (sleep (snd (term_pass pids ([], w))))). \<not> (fst x \<in> fst ` set pids \<and> may_signal (snd x))}"
    and "set (procs (snd (term_pass pids ([], w)))) = {x \<in> set (procs w). \<not> (fst x \<in> fst ` set pids \<and> may_signal (snd x) \<and> exits_on_term (snd x))}"
proof -
  obtain f1 w1 where t: "term_pass pids ([], w) = (f1, w1)" by (cases "term_pass pids ([], w)")
  from term_pass_inv [OF term_inv_init [OF ok] ok(1) tg] t
  have ti: "term_inv w (fst ` set pids) (f1, w1)" by simp
  then have ok1: "procs_ok w1" "self_alive w1" "my_pid w1 = my_pid w" by (simp_all add: term_inv_def)
  let ?w2 = "sleep w1"
  have ok2: "procs_ok ?w2" "self_alive ?w2" "my_pid ?w2 = my_pid w"
    using sleep_okD [OF sl] ok1 by auto
  have tg2: "targets_ok pids ?w2" using tg ok2 by (simp add: targets_ok_def)
  have "kill_inv ?w2 {} f1 (f1, ?w2)" using ok2 by (simp add: kill_inv_def)
  from kill_pass_inv [OF this ok2(1) tg2] run t
  have ki: "kill_inv ?w2 (fst ` set pids) f1 (failed, w')"
    by (simp add: kill_processes_def)
  show "set failed = {p \<in> fst ` set pids. \<exists>r. (p, r) \<in> set (procs w) \<and> \<not> may_signal r}"
    using ti ki by (simp add: term_inv_def kill_inv_def)
  show "self_alive w'" "my_pid w' = my_pid w" using ki ok2 by (simp_all add: kill_inv_def)
  show "set (procs w') = {x \<in> set (procs (sleep (snd (term_pass pids ([], w))))). \<not> (fst x \<in> fst ` set pids \<and> may_signal (snd x))}"
    using ki t by (simp add: kill_inv_def)
  show "set (procs (snd (term_pass pids ([], w)))) = {x \<in> set (procs w). \<not> (fst x \<in> fst ` set pids \<and> may_signal (snd x) \<and> exits_on_term (snd x))}"
    using ti t by (simp add: term_inv_def)
qed

lemma kill_processes_survivor:
  assumes "sleep_ok sleep" "procs_ok w" "self_alive w" "targets_ok pids w"
    and "kill_processes sleep pids w = (failed, w')"
    and "(p, r) \<in> set (procs w')" "p \<in> fst ` set pids"
  shows "p \<in> set failed"
proof -
  have sub: "set (procs (sleep (snd (term_pass pids ([], w))))) \<subseteq> set (procs w)"
    using sleep_okD(2) [OF assms(1)] kill_processes_effect(5) [OF assms(1-5)] by blast
  from kill_processes_effect(4) [OF assms(1-5)] assms(6,7) sub
  have "(p, r) \<in> set (procs w)" "\<not> may_signal r" by auto
  with assms(7) show ?thesis using kill_processes_effect(1) [OF assms(1-5)] by blast
qed

lemma sleep_ok_stdout: "sleep_ok sleep \<Longrightarrow> stdout (sleep w) = stdout w"
proof -
  assume "sleep_ok sleep"
  then have "sleep w = w\<lparr>procs := procs (sleep w)\<rparr>" by (simp add: sleep_ok_def)
  then show ?thesis by (metis world.select_convs(3) world.surjective world.update_convs(1))
qed

lemma term_one_stdout:
  assumes "self_alive w"
  shows "stdout (snd (term_one pid cmd (f, w))) = stdout w @ [''SIGTERM '' @ py_str_int pid @ '' :: '' @ cmd]"
proof -
  let ?w1 = "print_line (''SIGTERM '' @ py_str_int pid @ '' :: '' @ cmd) w"
  have "stdout ?w1 = stdout w @ [''SIGTERM '' @ py_str_int pid @ '' :: '' @ cmd]"
    using assms by (simp add: print_line_def)
  then show ?thesis
    by (auto simp: term_one_def Let_def split: sum.splits kill_err.splits dest: os_kill_Inr_frame)
qed

lemma term_pass_stdout_eq:
  "term_inv w0 D st \<Longrightarrow> procs_ok w0 \<Longrightarrow> targets_ok ps w0 \<Longrightarrow>
   stdout (snd (term_pass ps st)) = stdout (snd st) @ map (\<lambda>(p, c). ''SIGTERM '' @ py_str_int p @ '' :: '' @ c) ps"
proof (induction ps arbitrary: D st)
  case Nil
  then show ?case by simp
next
  case (Cons a ps)
  obtain pid cmd where a: "a = (pid, cmd)" by (cases a)
  obtain f w where st: "st = (f, w)" by (cases st)
  from Cons.prems a have inv: "term_inv w0 (insert pid D) (term_one pid cmd st)"
    by (auto intro: term_one_inv)
  have "self_alive w" using Cons.prems(1) st by (simp add: term_inv_def)
  then have "stdout (snd (term_one pid cmd st)) = stdout (snd st) @ [''SIGTERM '' @ py_str_int pid @ '' :: '' @ cmd]"
    using st by (simp add: term_one_stdout)
  with Cons.IH [OF inv] Cons.prems a show ?case by (simp add: targets_ok_def)
qed

lemma term_pass_stdout:
  "term_inv w0 D st \<Longrightarrow> procs_ok w0 \<Longrightarrow> targets_ok ps w0 \<Longrightarrow>
   length (stdout (snd (term_pass ps st))) = length (stdout (snd st)) + length ps"
  by (drule (2) term_pass_stdout_eq) simp

lemma kill_one_stdout:
  "stdout (snd (kill_one pid cmd st)) = stdout (snd st)
   \<or> stdout (snd (kill_one pid cmd st)) = stdout (snd st) @ [''SIGKILL '' @ py_str_int pid @ '' :: '' @ cmd]"
proof -
  obtain f w where st: "st = (f, w)" by (cases st)
  let ?w1 = "print_line (''SIGKILL '' @ py_str_int pid @ '' :: '' @ cmd) w"
  have "stdout ?w1 = stdout w \<or> stdout ?w1 = stdout w @ [''SIGKILL '' @ py_str_int pid @ '' :: '' @ cmd]"
    by (simp add: print_line_def)
  then show ?thesis using st
    by (auto simp: kill_one_def Let_def split: sum.splits dest: os_kill_Inr_frame)
qed

lemma kill_pass_stdout_subseq:
  "\<exists>ks. stdout (snd (kill_pass ps st)) = stdout (snd st) @ ks
     \<and> subseq ks (map (\<lambda>(p, c). ''SIGKILL '' @ py_str_int p @ '' :: '' @ c) ps)"
proof (induction ps arbitrary: st)
  case Nil
  then show ?case by simp
next
  case (Cons a ps)
  obtain pid cmd where a: "a = (pid, cmd)" by (cases a)
  from Cons.IH [of "kill_one pid cmd st"] obtain ks
    where ks: "stdout (snd (kill_pass ps (kill_one pid cmd st))) = stdout (snd (kill_one pid cmd st)) @ ks"
      "subseq ks (map (\<lambda>(p, c). ''SIGKILL '' @ py_str_int p @ '' :: '' @ c) ps)" by blast
  from kill_one_stdout [of pid cmd st] show ?case
  proof
    assume "stdout (snd (kill_one pid cmd st)) = stdout (snd st)"
    with ks a show ?case by (auto intro: list_emb_Cons)
  next
    assume "stdout (snd (kill_one pid cmd st)) = stdout (snd st) @ [''SIGKILL '' @ py_str_int pid @ '' :: '' @ cmd]"
    with ks a show ?case by (intro exI [of _ "(''SIGKILL '' @ py_str_int pid @ '' :: '' @ cmd) # ks"]) auto
  qed
qed

lemma kill_pass_stdout:
  "length (stdout (snd st)) \<le> length (stdout (snd (kill_pass ps st)))
   \<and> length (stdout (snd (kill_pass ps st))) \<le> length (stdout (snd st)) + length ps"
proof -
  obtain ks where "stdout (snd (kill_pass ps st)) = stdout (snd st) @ ks"
    "subseq ks (map (\<lambda>(p, c). ''SIGKILL '' @ py_str_int p @ '' :: '' @ c) ps)"
    using kill_pass_stdout_subseq by blast
  then show ?thesis using list_emb_length by fastforce
qed

text \<open>C1. Escalation is complete: after \<open>kill_processes\<close> every matched process is
  gone or its pid is reported in the returned \<open>failed\<close> list, whatever the rest of
  the system does during the one-second sleep.\<close>

theorem kill_processes_complete:
  assumes "sleep_ok sleep" "procs_ok w" "self_alive w" "targets_ok pids w"
    and "kill_processes sleep pids w = (failed, w')"
  shows "\<forall>(p, c) \<in> set pids. map_of (procs w') p = None \<or> p \<in> set failed"
proof -
  have "map_of (procs w') p = None \<or> p \<in> set failed" if pc: "(p, c) \<in> set pids" for p c
  proof (cases "map_of (procs w') p")
    case (Some r)
    then have "(p, r) \<in> set (procs w')" by (rule map_of_SomeD)
    with pc show ?thesis using kill_processes_survivor [OF assms, of p r] by force
  qed simp
  then show ?thesis by blast
qed

lemmas kill_demo_defs = kill_demo_world_def kill_demo_targets_def demo_proc_def

lemma kill_demo_run:
  "kill_processes id kill_demo_targets kill_demo_world =
     ([400], kill_demo_world\<lparr>procs := [(100, demo_proc ''python3 scripts/kill.py --kill'' True False),
        (400, demo_proc ''jest --runTestsByPath'' False True)],
      stdout := [''SIGTERM 200 :: node jest'', ''SIGTERM 300 :: node server.js'',
        ''SIGTERM 400 :: jest --runTestsByPath'', ''SIGKILL 300 :: node server.js'']\<rparr>)"
  by (simp add: kill_demo_defs kill_processes_def term_one_def kill_one_def process_alive_def
      os_kill_def kill_targets_def self_alive_def print_line_def survives_def py_str_int_def nat_digits.simps digit_char_def)

text \<open>Witness of C1 on the demo table, with no process exiting during the sleep.\<close>

theorem kill_processes_complete_witness:
  "(map_of (procs (snd (kill_processes id kill_demo_targets kill_demo_world))) 200 = None
      \<or> 200 \<in> set (fst (kill_processes id kill_demo_targets kill_demo_world)))
   \<and> (map_of (procs (snd (kill_processes id kill_demo_targets kill_demo_world))) 300 = None
      \<or> 300 \<in> set (fst (kill_processes id kill_demo_targets kill_demo_world)))
   \<and> (map_of (procs (snd (kill_processes id kill_demo_targets kill_demo_world))) 400 = None
      \<or> 400 \<in> set (fst (kill_processes id kill_demo_targets kill_demo_world)))"
proof -
  have h: "sleep_ok id" "procs_ok kill_demo_world" "self_alive kill_demo_world"
    "targets_ok kill_demo_targets kill_demo_world"
    by (simp_all add: sleep_ok_id kill_demo_defs procs_ok_def self_alive_def targets_ok_def)
  show ?thesis
    using kill_processes_complete [OF h, of "fst (kill_processes id kill_demo_targets kill_demo_world)"
        "snd (kill_processes id kill_demo_targets kill_demo_world)"]
    by (simp add: kill_demo_targets_def)
qed

text \<open>C2. The failure report is exact: the returned list holds exactly the matched
  pids whose process exists and may not be signalled by the script.\<close>

theorem kill_processes_failed_exact:
  assumes "sleep_ok sleep" "procs_ok w" "self_alive w" "targets_ok pids w"
    and "kill_processes sleep pids w = (failed, w')"
  shows "set failed = {p \<in> fst ` set pids. \<exists>r. (p, r) \<in> set (procs w) \<and> \<not> may_signal r}"
  by (rule kill_processes_effect(1) [OF assms])

theorem kill_processes_failed_exact_witness:
  "set (fst (kill_processes id kill_demo_targets kill_demo_world))
       = {p \<in> fst ` set kill_demo_targets. \<exists>r. (p, r) \<in> set (procs kill_demo_world) \<and> \<not> may_signal r}"
proof -
  have h: "sleep_ok id" "procs_ok kill_demo_world" "self_alive kill_demo_world"
    "targets_ok kill_demo_targets kill_demo_world"
    by (simp_all add: sleep_ok_id kill_demo_defs procs_ok_def self_alive_def targets_ok_def)
  show ?thesis
    using kill_processes_failed_exact [OF h, of "fst (kill_processes id kill_demo_targets kill_demo_world)"
        "snd (kill_processes id kill_demo_targets kill_demo_world)"] by simp
qed

text \<open>C3. Without interference during the sleep, \<open>kill_processes\<close> removes exactly the
  matched processes the script may signal and leaves every other process alone.\<close>

theorem kill_processes_exact_effect:
  assumes "procs_ok w" "self_alive w" "targets_ok pids w"
    and "kill_processes id pids w = (failed, w')"
  shows "set (procs w') = {x \<in> set (procs w). \<not> (fst x \<in> fst ` set pids \<and> may_signal (snd x))}"
proof -
  note e = kill_processes_effect [OF sleep_ok_id assms]
  show ?thesis using e(4,5) by auto
qed

theorem kill_processes_exact_effect_witness:
  "set (procs (snd (kill_processes id kill_demo_targets kill_demo_world)))
       = {x \<in> set (procs kill_demo_world). \<not> (fst x \<in> fst ` set kill_demo_targets \<and> may_signal (snd x))}"
proof -
  have h: "procs_ok kill_demo_world" "self_alive kill_demo_world" "targets_ok kill_demo_targets kill_demo_world"
    by (simp_all add: kill_demo_defs procs_ok_def self_alive_def targets_ok_def)
  show ?thesis
    using kill_processes_exact_effect [OF h, of "fst (kill_processes id kill_demo_targets kill_demo_world)"
        "snd (kill_processes id kill_demo_targets kill_demo_world)"] by simp
qed

text \<open>C4. \<open>process_alive\<close> reports a running process that the script may not signal
  as not alive: \<open>os.kill(pid, 0)\<close> raises \<open>PermissionError\<close>, an \<open>OSError\<close>.\<close>

theorem process_alive_eperm:
  assumes "0 < pid" "procs_ok w" "self_alive w" "map_of (procs w) pid = Some r" "\<not> may_signal r"
  shows "\<not> process_alive pid w"
  using assms by (simp add: process_alive_pos)

theorem process_alive_eperm_witness:
  "map_of (procs kill_demo_world) 400 \<noteq> None \<and> \<not> process_alive 400 kill_demo_world"
proof -
  have h: "0 < (400::int)" "procs_ok kill_demo_world" "self_alive kill_demo_world"
    "map_of (procs kill_demo_world) 400 = Some (demo_proc ''jest --runTestsByPath'' False True)"
    "\<not> may_signal (demo_proc ''jest --runTestsByPath'' False True)"
    by (simp_all add: kill_demo_defs procs_ok_def self_alive_def)
  show ?thesis using process_alive_eperm [OF h] h(4) by simp
qed

text \<open>C5. PID reuse: when a matched process that exits on SIGTERM is gone and its
  pid is taken during the sleep by a new process \<open>q\<close>, whatever its command line,
  the SIGKILL pass kills \<open>q\<close>: \<open>process_alive\<close> checks the pid, not the process
  that was matched.\<close>

theorem kill_processes_pid_reuse:
  assumes ok: "procs_ok w" "self_alive w" "targets_ok pids w"
    and pc: "(p, c) \<in> set pids" and r: "map_of (procs w) p = Some r" "may_signal r" "exits_on_term r"
    and q: "may_signal q"
    and run: "kill_processes (\<lambda>w. w\<lparr>procs := procs w @ [(p, q)]\<rparr>) pids w = (failed, w')"
  shows "map_of (procs w') p = None"
proof -
  obtain f1 w1 where t: "term_pass pids ([], w) = (f1, w1)" by (cases "term_pass pids ([], w)")
  from term_pass_inv [OF term_inv_init [OF ok(1,2)] ok(1,3)] t
  have ti: "term_inv w (fst ` set pids) (f1, w1)" by simp
  then have ok1: "procs_ok w1" "self_alive w1" "my_pid w1 = my_pid w"
    and s1: "set (procs w1) = {x \<in> set (procs w). \<not> (fst x \<in> fst ` set pids \<and> may_signal (snd x) \<and> exits_on_term (snd x))}"
    by (simp_all add: term_inv_def)
  have gone: "p \<notin> fst ` set (procs w1)"
  proof
    assume "p \<in> fst ` set (procs w1)"
    then obtain x where x: "x \<in> set (procs w1)" "fst x = p" by blast
    with s1 have "x \<in> set (procs w)" by blast
    with procs_ok_entry [OF ok(1) r(1)] x(2) have "snd x = r" by blast
    with x s1 pc r(2,3) show False by force
  qed
  define w2 where "w2 = w1\<lparr>procs := procs w1 @ [(p, q)]\<rparr>"
  have ok2: "procs_ok w2" "self_alive w2" "my_pid w2 = my_pid w"
    using ok1 gone by (auto simp: w2_def procs_ok_def self_alive_def map_add_def split: option.splits)
  have tg2: "targets_ok pids w2" using ok(3) ok2(3) by (simp add: targets_ok_def)
  have "kill_inv w2 {} f1 (f1, w2)" using ok2 by (simp add: kill_inv_def)
  from kill_pass_inv [OF this ok2(1) tg2] run t
  have "set (procs w') = {x \<in> set (procs w2). \<not> (fst x \<in> fst ` set pids \<and> may_signal (snd x))}"
    by (simp add: kill_processes_def kill_inv_def w2_def)
  moreover have "x \<in> set (procs w2) \<Longrightarrow> fst x = p \<Longrightarrow> x = (p, q)" for x
    using gone by (force simp: w2_def)
  ultimately have "p \<notin> fst ` set (procs w')" using pc q by force
  then show ?thesis by (simp add: map_of_eq_None_iff)
qed

theorem kill_processes_pid_reuse_witness:
  "map_of (procs (snd (kill_processes (\<lambda>w. w\<lparr>procs := procs w @ [(200, demo_proc ''/usr/sbin/sshd'' True False)]\<rparr>)
      kill_demo_targets kill_demo_world))) 200 = None"
proof -
  have ok: "procs_ok kill_demo_world" "self_alive kill_demo_world" "targets_ok kill_demo_targets kill_demo_world"
    by (simp_all add: kill_demo_defs procs_ok_def self_alive_def targets_ok_def)
  show ?thesis
    by (rule kill_processes_pid_reuse [OF ok _ _ _ _ _ surjective_pairing,
          where c = "''node jest''" and r = "demo_proc ''node jest'' True True"])
      (simp_all add: kill_demo_defs)
qed

text \<open>C19. Output bounds: \<open>kill_processes\<close> prints one "SIGTERM" line for every
  matched process and at most one "SIGKILL" line more, so between \<open>n\<close> and
  \<open>2 n\<close> lines for \<open>n\<close> matched processes.\<close>

theorem kill_processes_output_bounds:
  assumes "sleep_ok sleep" "procs_ok w" "self_alive w" "targets_ok pids w"
    and "kill_processes sleep pids w = (failed, w')"
  shows "length (stdout w) + length pids \<le> length (stdout w')
    \<and> length (stdout w') \<le> length (stdout w) + 2 * length pids"
proof -
  obtain f1 w1 where t: "term_pass pids ([], w) = (f1, w1)" by (cases "term_pass pids ([], w)")
  have l1: "length (stdout w1) = length (stdout w) + length pids"
    using term_pass_stdout [OF term_inv_init [OF assms(2,3)] assms(2,4)] t by simp
  have w': "w' = snd (kill_pass pids (f1, sleep w1))" using assms(5) t by (simp add: kill_processes_def)
  show ?thesis
    using kill_pass_stdout [of "(f1, sleep w1)" pids] sleep_ok_stdout [OF assms(1), of w1] l1 w' by simp
qed

theorem kill_processes_output_bounds_witness:
  "length (stdout kill_demo_world) + length kill_demo_targets
     \<le> length (stdout (snd (kill_processes id kill_demo_targets kill_demo_world)))
   \<and> length (stdout (snd (kill_processes id kill_demo_targets kill_demo_world)))
     \<le> length (stdout kill_demo_world) + 2 * length kill_demo_targets"
proof -
  have ok: "procs_ok kill_demo_world" "self_alive kill_demo_world" "targets_ok kill_demo_targets kill_demo_world"
    by (simp_all add: kill_demo_defs procs_ok_def self_alive_def targets_ok_def)
  show ?thesis using kill_processes_output_bounds [OF sleep_ok_id ok surjective_pairing] by simp
qed

text \<open>C22. Output order: \<open>kill_processes\<close> first prints the "SIGTERM" line of every
  matched process, in the order of the list, and then "SIGKILL" lines for some of
  them, again in that order; nothing else is printed.\<close>

theorem kill_processes_output_order:
  assumes "sleep_ok sleep" "procs_ok w" "self_alive w" "targets_ok pids w"
    and "kill_processes sleep pids w = (failed, w')"
  shows "\<exists>ks. stdout w' = stdout w @ map (\<lambda>(p, c). ''SIGTERM '' @ py_str_int p @ '' :: '' @ c) pids @ ks
    \<and> subseq ks (map (\<lambda>(p, c). ''SIGKILL '' @ py_str_int p @ '' :: '' @ c) pids)"
proof -
  obtain f1 w1 where t: "term_pass pids ([], w) = (f1, w1)" by (cases "term_pass pids ([], w)")
  have s1: "stdout w1 = stdout w @ map (\<lambda>(p, c). ''SIGTERM '' @ py_str_int p @ '' :: '' @ c) pids"
    using term_pass_stdout_eq [OF term_inv_init [OF assms(2,3)] assms(2,4)] t by simp
  have w': "w' = snd (kill_pass pids (f1, sleep w1))" using assms(5) t by (simp add: kill_processes_def)
  obtain ks where "stdout w' = stdout (sleep w1) @ ks"
    "subseq ks (map (\<lambda>(p, c). ''SIGKILL '' @ py_str_int p @ '' :: '' @ c) pids)"
    using kill_pass_stdout_subseq [of pids "(f1, sleep w1)"] w' by auto
  then show ?thesis using s1 sleep_ok_stdout [OF assms(1), of w1] by auto
qed

theorem kill_processes_output_order_witness:
  "\<exists>ks. stdout (snd (kill_processes id kill_demo_targets kill_demo_world))
      = stdout kill_demo_world @ map (\<lambda>(p, c). ''SIGTERM '' @ py_str_int p @ '' :: '' @ c) kill_demo_targets @ ks
    \<and> subseq ks (map (\<lambda>(p, c). ''SIGKILL '' @ py_str_int p @ '' :: '' @ c) kill_demo_targets)"
proof -
  have ok: "procs_ok kill_demo_world" "self_alive kill_demo_world" "targets_ok kill_demo_targets kill_demo_world"
    by (simp_all add: kill_demo_defs procs_ok_def self_alive_def targets_ok_def)
  show ?thesis using kill_processes_output_order [OF sleep_ok_id ok surjective_pairing] .
qed

end
