(* ===== verification/Listeners.thy ===== *)
theory Listeners
  imports Os
begin

text \<open>
  \<open>_ps_cmd\<close> and \<open>list_listeners_on_port\<close> of \<open>src/scripts/kill.py\<close>: the pids
  listening on a TCP port, read from \<open>lsof\<close> and, when that raises anything, from
  \<open>ss -ltnp\<close>. The loops carry the script's \<open>results\<close> list and \<open>seen\<close> set;
  an exception inside the \<open>lsof\<close> loop leaves them as they are and falls through
  to the \<open>ss\<close> loop, which continues with the same list and set.
\<close>

type_synonym found = "(pid \<times> string) list \<times> pid set"

text \<open>\<open>_ps_cmd\<close> (lines 33-37): the command line of a pid; a non-zero exit of
  \<open>ps\<close> gives the empty string, a missing \<open>ps\<close> propagates.\<close>

definition ps_cmd :: "world \<Rightarrow> pid \<Rightarrow> py_exc + string" where
  "ps_cmd w pid = (case check_output (ps_p w pid) ''ps'' of
      Inr out \<Rightarrow> Inr (py_strip out)
    | Inl (CalledProcessError n) \<Rightarrow> Inr []
    | Inl e \<Rightarrow> Inl e)"

text \<open>The loop over the \<open>lsof\<close> lines after the header (lines 50-57). The result
  says which exception, if any, ended the loop early.\<close>

fun lsof_scan :: "world \<Rightarrow> string list \<Rightarrow> found \<Rightarrow> py_exc option \<times> found" where
  "lsof_scan w [] acc = (None, acc)"
| "lsof_scan w (line # ls) (res, seen) =
     (let parts = py_split line in
      if 2 \<le> length parts \<and> py_isdigit (parts ! 1) then
        (case py_int (parts ! 1) of
           Inl e \<Rightarrow> (Some e, (res, seen))
         | Inr pid \<Rightarrow>
             if pid \<notin> seen then
               (case ps_cmd w pid of
                  Inl e \<Rightarrow> (Some e, (res, insert pid seen))
                | Inr cmd \<Rightarrow> lsof_scan w ls (res @ [(pid, if cmd = [] then hd parts else cmd)], insert pid seen))
             else lsof_scan w ls (res, seen))
      else lsof_scan w ls (res, seen))"

text \<open>\<open>re.search(r"pid=(\d+)", line)\<close> (line 65): the leftmost \<open>pid=\<close> followed by
  a digit, and the longest run of digits there.\<close>

fun re_search_pid :: "string \<Rightarrow> string option" where
  "re_search_pid [] = None"
| "re_search_pid (c # cs) =
     (if starts_with ''pid='' (c # cs) \<and> (case drop 4 (c # cs) of d # _ \<Rightarrow> is_ascii_digit d | [] \<Rightarrow> False)
      then Some (takeWhile is_ascii_digit (drop 4 (c # cs)))
      else re_search_pid cs)"

definition ss_line_matches :: "port \<Rightarrow> string \<Rightarrow> bool" where
  "ss_line_matches port line \<longleftrightarrow>
     py_in ('':'' @ py_str_int port @ '' '') line \<or> py_endswith (py_strip line) ('':'' @ py_str_int port)"

text \<open>The loop over the \<open>ss -ltnp\<close> lines (lines 62-71); an exception ends it and
  the enclosing \<open>except Exception: pass\<close> keeps what was found.\<close>

fun ss_scan :: "world \<Rightarrow> port \<Rightarrow> string list \<Rightarrow> found \<Rightarrow> found" where
  "ss_scan w port [] acc = acc"
| "ss_scan w port (line # ls) (res, seen) =
     (if ss_line_matches port line then
        (case re_search_pid line of
           None \<Rightarrow> ss_scan w port ls (res, seen)
         | Some digits \<Rightarrow>
             (case py_int digits of
                Inl e \<Rightarrow> (res, seen)
              | Inr pid \<Rightarrow>
                  if pid \<notin> seen then
                    (case ps_cmd w pid of
                       Inl e \<Rightarrow> (res, insert pid seen)
                     | Inr cmd \<Rightarrow> ss_scan w port ls (res @ [(pid, cmd)], insert pid seen))
                  else ss_scan w port ls (res, seen)))
      else ss_scan w port ls (res, seen))"

definition ss_fallback :: "world \<Rightarrow> port \<Rightarrow> found \<Rightarrow> (pid \<times> string) list" where
  "ss_fallback w port acc = (case check_output (ss_ltnp w) ''ss'' of
      Inr out \<Rightarrow> fst (ss_scan w port (py_splitlines out) acc)
    | Inl e \<Rightarrow> fst acc)"

definition list_listeners_on_port :: "world \<Rightarrow> port \<Rightarrow> (pid \<times> string) list" where
  "list_listeners_on_port w port =
     (case check_output (lsof w port) ''lsof'' of
        Inr out \<Rightarrow>
          (case lsof_scan w (drop 1 (py_splitlines (py_strip out))) ([], {}) of
             (None, acc) \<Rightarrow> fst acc
           | (Some e, acc) \<Rightarrow> ss_fallback w port acc)
      | Inl e \<Rightarrow> ss_fallback w port ([], {}))"

text \<open>The invariant of both loops: the results have distinct, non-negative pids,
  all of them already in \<open>seen\<close>.\<close>

definition found_ok :: "found \<Rightarrow> bool" where
  "found_ok acc \<longleftrightarrow> (case acc of (res, seen) \<Rightarrow>
     distinct (map fst res) \<and> fst ` set res \<subseteq> seen \<and> list_all (\<lambda>x. 0 \<le> fst x) res)"

text \<open>A port whose \<open>lsof\<close> listing has a pid column of superscript digits, which
  \<open>str.isdigit\<close> accepts and \<open>int()\<close> rejects, and an \<open>ss\<close> listing with a
  second listener.\<close>

definition listen_demo_world :: world where
  "listen_demo_world = \<lparr>procs = [], my_pid = 100, stdout = [], ps_eo = NotInstalled, ps_aux = NotInstalled,
    ps_p = (\<lambda>p. if p = 4242 then Ran 0 ''node server.js\<newline>'' else if p = 4343 then Ran 0 ''node other.js'' else Ran 1 []),
    lsof = (\<lambda>port. Ran 0 (''COMMAND PID USER FD TYPE NAME\<newline>node 4242 me 20u IPv4 *:8081\<newline>node ''
                        @ [CHR 0xB2, CHR 0xB3] @ '' me 21u IPv4 *:8081'')),
    ss_ltnp = Ran 0 ''State Recv-Q Send-Q Local Peer Process\<newline>LISTEN 0 511 *:8081 *:* users:((node,pid=4343,fd=20))''\<rparr>"

text \<open>A port shared by two processes (a pre-forked server), seen through \<open>ss\<close> only.\<close>

definition listen_shared_world :: world where
  "listen_shared_world = \<lparr>procs = [], my_pid = 100, stdout = [], ps_eo = NotInstalled, ps_aux = NotInstalled,
    ps_p = (\<lambda>p. if p = 4242 then Ran 0 ''node server.js'' else if p = 4243 then Ran 0 ''node worker.js'' else Ran 1 []),
    lsof = (\<lambda>port. NotInstalled),
    ss_ltnp = Ran 0 ''State Recv-Q Send-Q Local Peer Process\<newline>LISTEN 0 511 *:8081 *:* users:((node,pid=4242,fd=20),(node,pid=4243,fd=20))''\<rparr>"

subsection \<open>Loop invariants\<close>

lemma re_search_pid_digits:
  "re_search_pid l = Some d \<Longrightarrow> d \<noteq> [] \<and> list_all is_ascii_digit d"
  by (induction l rule: re_search_pid.induct) (auto split: if_splits list.splits simp: list_all_iff dest: set_takeWhileD)

lemma re_search_pid_int: "re_search_pid l = Some d \<Longrightarrow> py_int d = Inr i \<Longrightarrow> 0 \<le> i"
  using re_search_pid_digits py_int_digits by fastforce

lemma found_ok_snoc:
  "found_ok (res, seen) \<Longrightarrow> pid \<notin> seen \<Longrightarrow> 0 \<le> pid \<Longrightarrow> found_ok (res @ [(pid, c)], insert pid seen)"
  by (auto simp: found_ok_def)

lemma found_ok_insert: "found_ok (res, seen) \<Longrightarrow> found_ok (res, insert pid seen)"
  by (auto simp: found_ok_def)

lemma found_ok_fst: "found_ok acc \<Longrightarrow> distinct (map fst (fst acc)) \<and> list_all (\<lambda>x. 0 \<le> fst x) (fst acc)"
  by (cases acc) (simp add: found_ok_def)

lemma lsof_scan_ok: "found_ok (res, seen) \<Longrightarrow> found_ok (snd (lsof_scan w ls (res, seen)))"
proof (induction ls arbitrary: res seen)
  case Nil
  then show ?case by simp
next
  case (Cons line ls)
  then show ?case
    by (auto simp: Let_def split: sum.splits
             intro: found_ok_snoc found_ok_insert dest: isdigit_int_nonneg)
qed

lemma ss_scan_ok: "found_ok (res, seen) \<Longrightarrow> found_ok (ss_scan w port ls (res, seen))"
proof (induction ls arbitrary: res seen)
  case Nil
  then show ?case by simp
next
  case (Cons line ls)
  then show ?case
    by (auto split: sum.splits option.splits
             intro: found_ok_snoc found_ok_insert dest: re_search_pid_int)
qed

lemma ss_fallback_ok:
  "found_ok acc \<Longrightarrow> distinct (map fst (ss_fallback w port acc)) \<and> list_all (\<lambda>x. 0 \<le> fst x) (ss_fallback w port acc)"
  by (cases acc) (auto simp: ss_fallback_def split: sum.splits dest: ss_scan_ok found_ok_fst)

subsection \<open>The row loops\<close>

lemma lsof_scan_append:
  "lsof_scan w (xs @ ys) acc = (case lsof_scan w xs acc of
      (None, acc') \<Rightarrow> lsof_scan w ys acc'
    | (Some e, acc') \<Rightarrow> (Some e, acc'))"
  by (induction w xs acc rule: lsof_scan.induct) (auto simp: Let_def split: sum.splits)

lemma lsof_scan_bad_row:
  "2 \<le> length (py_split l) \<Longrightarrow> py_isdigit (py_split l ! 1) \<Longrightarrow> py_int (py_split l ! 1) = Inl e \<Longrightarrow>
   lsof_scan w (l # ls) acc = (Some e, acc)"
  by (cases acc) (simp add: Let_def)

lemma ss_scan_from_lines:
  "\<exists>xs. fst (ss_scan w port ls (res, seen)) = res @ xs \<and> length xs \<le> length ls
     \<and> (\<forall>(p, c) \<in> set xs. \<exists>l \<in> set ls. \<exists>d. re_search_pid l = Some d \<and> py_int d = Inr p)"
proof (induction ls arbitrary: res seen)
  case Nil
  then show ?case by simp
next
  case (Cons line ls)
  let ?P = "\<lambda>ls' xs. length xs \<le> length ls'
     \<and> (\<forall>(p, c) \<in> set xs. \<exists>l \<in> set ls'. \<exists>d. re_search_pid l = Some d \<and> py_int d = Inr p)"
  have mono: "?P ls xs \<Longrightarrow> ?P (line # ls) xs" for xs by fastforce
  have stop: "?P (line # ls) []" by simp
  show ?case
  proof (cases "ss_line_matches port line")
    case False
    with Cons.IH [of res seen] mono show ?thesis by auto
  next
    case m: True
    show ?thesis
    proof (cases "re_search_pid line")
      case None
      with m Cons.IH [of res seen] mono show ?thesis by auto
    next
      case (Some d)
      show ?thesis
      proof (cases "py_int d")
        case (Inl e)
        with m Some stop show ?thesis by (intro exI [of _ "[]"]) simp
      next
        case (Inr pid)
        show ?thesis
        proof (cases "pid \<in> seen")
          case True
          with m Some Inr Cons.IH [of res seen] mono show ?thesis by auto
        next
          case ns: False
          show ?thesis
          proof (cases "ps_cmd w pid")
            case (Inl e)
            with m Some Inr ns stop show ?thesis by (intro exI [of _ "[]"]) simp
          next
            case (Inr cmd)
            from Cons.IH [of "res @ [(pid, cmd)]" "insert pid seen"] obtain xs
              where xs: "fst (ss_scan w port ls (res @ [(pid, cmd)], insert pid seen)) = (res @ [(pid, cmd)]) @ xs"
                "?P ls xs" by blast
            have "?P (line # ls) ((pid, cmd) # xs)" using xs(2) Some \<open>py_int d = Inr pid\<close> by fastforce
            with xs(1) m Some \<open>py_int d = Inr pid\<close> ns Inr show ?thesis
              by (intro exI [of _ "(pid, cmd) # xs"]) simp
          qed
        qed
      qed
    qed
  qed
qed

subsection \<open>Properties of the listener discovery\<close>

text \<open>C6. \<open>list_listeners_on_port\<close> returns each pid at most once, and every pid it
  returns is non-negative, whatever \<open>lsof\<close>, \<open>ss\<close> and \<open>ps\<close> print.\<close>

theorem list_listeners_distinct_nonneg:
  "distinct (map fst (list_listeners_on_port w port))
   \<and> list_all (\<lambda>x. 0 \<le> fst x) (list_listeners_on_port w port)"
proof -
  have init: "found_ok ([], {})" by (simp add: found_ok_def)
  show ?thesis
  proof (cases "check_output (lsof w port) ''lsof''")
    case (Inl e)
    then show ?thesis using ss_fallback_ok [OF init] by (simp add: list_listeners_on_port_def)
  next
    case (Inr out)
    obtain eo acc where run: "lsof_scan w (drop 1 (py_splitlines (py_strip out))) ([], {}) = (eo, acc)"
      by (cases "lsof_scan w (drop 1 (py_splitlines (py_strip out))) ([], {})")
    with lsof_scan_ok [OF init] have ok: "found_ok acc" by (metis snd_conv)
    show ?thesis
      using Inr run found_ok_fst [OF ok] ss_fallback_ok [OF ok]
      by (cases eo) (simp_all add: list_listeners_on_port_def)
  qed
qed

text \<open>C7. A row whose pid field passes \<open>str.isdigit\<close> but makes \<open>int()\<close> raise (a
  superscript digit) ends the \<open>lsof\<close> loop: the broad \<open>except\<close> turns it into the
  \<open>ss\<close> fallback, which starts from the rows found before it, and every later
  \<open>lsof\<close> row is dropped.\<close>

theorem lsof_isdigit_int_fallback:
  assumes "check_output (lsof w port) ''lsof'' = Inr out"
    and "drop 1 (py_splitlines (py_strip out)) = rows @ l # rest"
    and "lsof_scan w rows ([], {}) = (None, acc)"
    and "2 \<le> length (py_split l)" "py_isdigit (py_split l ! 1)" "py_int (py_split l ! 1) = Inl e"
  shows "list_listeners_on_port w port = ss_fallback w port acc"
  using assms by (simp add: list_listeners_on_port_def lsof_scan_append lsof_scan_bad_row)

text \<open>C20. On the \<open>ss\<close> path each socket line contributes at most one process, the
  one of the pid that \<open>re.search(r"pid=(\d+)", line)\<close> returns: of processes
  sharing a listening socket (one line, several \<open>pid=\<close>), at most one is selected.\<close>

theorem ss_scan_one_pid_per_line:
  "\<exists>xs. fst (ss_scan w port ls acc) = fst acc @ xs \<and> length xs \<le> length ls
     \<and> (\<forall>(p, c) \<in> set xs. \<exists>l \<in> set ls. \<exists>d. re_search_pid l = Some d \<and> py_int d = Inr p)"
  using ss_scan_from_lines [of w port ls "fst acc" "snd acc"] by simp

subsection \<open>Concrete runs\<close>

theorem lsof_isdigit_int_fallback_witness:
  "list_listeners_on_port listen_demo_world 8081
     = ss_fallback listen_demo_world 8081 ([(4242, ''node server.js'')], {4242})"
  by (rule lsof_isdigit_int_fallback [where out = "''COMMAND PID USER FD TYPE NAME\<newline>node 4242 me 20u IPv4 *:8081\<newline>node ''
        @ [CHR 0xB2, CHR 0xB3] @ '' me 21u IPv4 *:8081''" and rows = "[''node 4242 me 20u IPv4 *:8081'']"
        and l = "''node '' @ [CHR 0xB2, CHR 0xB3] @ '' me 21u IPv4 *:8081''" and rest = "[]"
        and e = "ValueError [CHR 0xB2, CHR 0xB3]"])
    (simp_all add: listen_demo_world_def check_output_def ps_cmd_def py_splitlines_def py_is_linebreak_def
      py_strip_def py_isspace_def py_split_def py_isdigit_def py_isdigit_char_def is_ascii_digit_def py_int_def
      dec_body_ok_def dec_value_def digit_val_def py_str_int_def nat_digits.simps digit_char_def Let_def)

theorem ss_scan_one_pid_per_line_witness:
  "length (fst (ss_scan listen_shared_world 8081
      [''LISTEN 0 511 *:8081 *:* users:((node,pid=4242,fd=20),(node,pid=4243,fd=20))''] ([], {}))) \<le> 1"
proof -
  from ss_scan_one_pid_per_line [of listen_shared_world 8081
      "[''LISTEN 0 511 *:8081 *:* users:((node,pid=4242,fd=20),(node,pid=4243,fd=20))'']" "([], {})"]
  obtain xs where "fst (ss_scan listen_shared_world 8081
      [''LISTEN 0 511 *:8081 *:* users:((node,pid=4242,fd=20),(node,pid=4243,fd=20))''] ([], {})) = [] @ xs"
    "length xs \<le> 1" by auto
  then show ?thesis by simp
qed

end
