(* ===== verification/Select.thy ===== *)
theory Select
  imports Listeners
begin

text \<open>
  \<open>list_processes\<close> of \<open>src/scripts/kill.py\<close> (lines 77-105): the processes whose
  command line contains a marker, read from \<open>ps -eo pid,cmd\<close>, then the listeners
  of each port not already found, without the script's own pid, sorted by pid.
  The dictionary \<open>by_pid\<close> is an association list with distinct keys
  (\<open>AList.update\<close> is \<open>by_pid[pid] = cmd\<close>, \<open>AList.delete\<close> is \<open>pop\<close>).
\<close>

definition MARKERS :: "string list" where
  "MARKERS = [''jest'', ''entities.e2e.test'', ''tests/e2e'', ''--runTestsByPath'']"

definition DEFAULT_PORTS :: "port list" where
  "DEFAULT_PORTS = [8082, 8081]"

text \<open>Lines 91-92: a case-insensitive substring test against every marker.\<close>

definition marker_match :: "string \<Rightarrow> bool" where
  "marker_match cmd \<longleftrightarrow> (let lower = py_lower cmd in list_ex (\<lambda>m. py_in (py_lower m) lower) MARKERS)"

text \<open>Lines 86-90: \<open>pid_str, cmd = line.strip().split(maxsplit=1)\<close>, where a line
  with fewer than two fields is skipped (the caught \<open>ValueError\<close> of the
  unpacking) and \<open>int(pid_str)\<close> raises out of \<open>list_processes\<close>.\<close>

definition ps_line_fields :: "string \<Rightarrow> py_exc + (pid \<times> string) option" where
  "ps_line_fields line = (case py_split_max1 (py_strip line) of
      [pid_str, cmd] \<Rightarrow> (case py_int pid_str of Inl e \<Rightarrow> Inl e | Inr pid \<Rightarrow> Inr (Some (pid, cmd)))
    | _ \<Rightarrow> Inr None)"

fun marker_scan :: "string list \<Rightarrow> (pid \<times> string) list \<Rightarrow> py_exc + (pid \<times> string) list" where
  "marker_scan [] by_pid = Inr by_pid"
| "marker_scan (line # ls) by_pid =
     (case ps_line_fields line of
        Inl e \<Rightarrow> Inl e
      | Inr None \<Rightarrow> marker_scan ls by_pid
      | Inr (Some (pid, cmd)) \<Rightarrow>
          marker_scan ls (if marker_match cmd then AList.update pid cmd by_pid else by_pid))"

text \<open>Lines 97-99: a listener is added only when its pid is not yet a key.\<close>

fun add_listeners :: "(pid \<times> string) list \<Rightarrow> (pid \<times> string) list \<Rightarrow> (pid \<times> string) list" where
  "add_listeners [] by_pid = by_pid"
| "add_listeners ((pid, cmd) # xs) by_pid =
     add_listeners xs (if map_of by_pid pid = None then AList.update pid cmd by_pid else by_pid)"

fun port_scan :: "world \<Rightarrow> port list \<Rightarrow> (pid \<times> string) list \<Rightarrow> (pid \<times> string) list" where
  "port_scan w [] by_pid = by_pid"
| "port_scan w (port # ports) by_pid = port_scan w ports (add_listeners (list_listeners_on_port w port) by_pid)"

definition list_processes :: "port list \<Rightarrow> world \<Rightarrow> py_exc + (pid \<times> string) list" where
  "list_processes ports w =
     (let ports = (if ports = [] then DEFAULT_PORTS else ports) in
      case check_output (ps_eo w) ''ps'' of
        Inl e \<Rightarrow> Inl e
      | Inr out \<Rightarrow>
          (case marker_scan (drop 1 (py_splitlines (py_strip out))) [] of
             Inl e \<Rightarrow> Inl e
           | Inr by_pid \<Rightarrow>
               let by_pid = port_scan w ports by_pid;
                   me = my_pid w;
                   by_pid = (if map_of by_pid me \<noteq> None then AList.delete me by_pid else by_pid)
               in Inr (map (\<lambda>p. (p, the (map_of by_pid p))) (sort (map fst by_pid)))))"

text \<open>The abstract view of the marker pass: the parsed lines whose command matches
  a marker, in order; the dictionary keeps the last command of each pid.\<close>

fun marker_pairs :: "string list \<Rightarrow> (pid \<times> string) list" where
  "marker_pairs [] = []"
| "marker_pairs (line # ls) =
     (case ps_line_fields line of
        Inr (Some (pid, cmd)) \<Rightarrow> (if marker_match cmd then [(pid, cmd)] else []) @ marker_pairs ls
      | _ \<Rightarrow> marker_pairs ls)"

text \<open>The abstract specification of the selection: markers first (the last command
  of a pid wins), then the first listener of each pid over the ports in order, and
  never the script itself.\<close>

definition selection_ref :: "port list \<Rightarrow> world \<Rightarrow> string list \<Rightarrow> (pid \<rightharpoonup> string)" where
  "selection_ref ports w lines =
     (map_of (rev (marker_pairs lines)
        @ concat (map (list_listeners_on_port w) (if ports = [] then DEFAULT_PORTS else ports))))(my_pid w := None)"

text \<open>A \<open>ps -eo pid,cmd\<close> listing in which the script itself carries a marker,
  no listener on 8082 and one on 8081; the Jest worker exits on SIGTERM, the
  server on 8081 only on SIGKILL.\<close>

definition sel_demo_world :: world where
  "sel_demo_world = \<lparr>procs = [
      (100, \<lparr>cmdline = ''python3 scripts/kill.py --runTestsByPath'', may_signal = True, exits_on_term = False, pgid = 1\<rparr>),
      (200, \<lparr>cmdline = ''node jest'', may_signal = True, exits_on_term = True, pgid = 1\<rparr>),
      (300, \<lparr>cmdline = ''bash'', may_signal = True, exits_on_term = False, pgid = 1\<rparr>),
      (400, \<lparr>cmdline = ''node app.js'', may_signal = True, exits_on_term = False, pgid = 1\<rparr>)],
    my_pid = 100, stdout = [],
    ps_eo = Ran 0 ''    PID CMD\<newline>  100 python3 scripts/kill.py --runTestsByPath\<newline>  200 node jest\<newline>  300 bash\<newline>'',
    ps_aux = NotInstalled,
    ps_p = (\<lambda>p. if p = 400 then Ran 0 ''node app.js'' else Ran 1 []),
    lsof = (\<lambda>port. if port = 8081 then Ran 0 ''COMMAND PID USER\<newline>node 400 me'' else Ran 1 []),
    ss_ltnp = NotInstalled\<rparr>"

subsection \<open>The dictionary passes\<close>

lemmas sel_eval = sel_demo_world_def list_processes_def check_output_def DEFAULT_PORTS_def
  ps_line_fields_def py_split_max1_def marker_match_def MARKERS_def py_lower_def py_lower_char_def
  list_listeners_on_port_def ss_fallback_def ps_cmd_def py_splitlines_def py_is_linebreak_def
  py_strip_def py_isspace_def py_split_def py_isdigit_def py_isdigit_char_def is_ascii_digit_def
  py_int_def dec_body_ok_def dec_value_def digit_val_def

lemma marker_scan_map_of:
  "marker_scan ls m = Inr m' \<Longrightarrow> map_of m' = map_of (rev (marker_pairs ls) @ m)"
proof (induction ls arbitrary: m)
  case Nil
  then show ?case by simp
next
  case (Cons line ls)
  then show ?case
    by (auto simp: update_conv' fun_eq_iff map_add_def split: sum.splits option.splits prod.splits if_splits)
qed

lemma marker_scan_distinct:
  "marker_scan ls m = Inr m' \<Longrightarrow> distinct (map fst m) \<Longrightarrow> distinct (map fst m')"
  by (induction ls arbitrary: m) (auto split: sum.splits option.splits prod.splits if_splits)

lemma add_listeners_map_of: "map_of (add_listeners xs m) = map_of (m @ xs)"
proof (induction xs arbitrary: m)
  case Nil
  then show ?case by simp
next
  case (Cons x xs)
  obtain p c where x: "x = (p, c)" by (cases x)
  show ?case
    using Cons.IH by (auto simp: x update_conv' fun_eq_iff map_add_def split: option.splits)
qed

lemma add_listeners_distinct: "distinct (map fst m) \<Longrightarrow> distinct (map fst (add_listeners xs m))"
  by (induction xs arbitrary: m) auto

lemma port_scan_map_of:
  "map_of (port_scan w ports m) = map_of (m @ concat (map (list_listeners_on_port w) ports))"
  by (induction ports arbitrary: m) (simp_all add: add_listeners_map_of)

lemma port_scan_distinct: "distinct (map fst m) \<Longrightarrow> distinct (map fst (port_scan w ports m))"
  by (induction ports arbitrary: m) (simp_all add: add_listeners_distinct)

lemma restrict_map_the_dom: "(\<lambda>p. Some (the (m p))) |` dom m = m"
proof (rule ext)
  fix p
  show "((\<lambda>p. Some (the (m p))) |` dom m) p = m p" by (cases "m p") (simp_all add: restrict_map_def domIff)
qed

lemma map_of_sorted_lookup:
  "map_of (map (\<lambda>p. (p, the (map_of B p))) (sort (map fst B))) = map_of B"
proof -
  have "set (sort (map fst B)) = dom (map_of B)" by (simp add: dom_map_of_conv_image_fst)
  then show ?thesis by (simp add: map_of_map_restrict comp_def restrict_map_the_dom)
qed

lemma list_processes_InrE:
  assumes "list_processes ports w = Inr r"
  obtains out m where "check_output (ps_eo w) ''ps'' = Inr out"
    and "marker_scan (drop 1 (py_splitlines (py_strip out))) [] = Inr m"
    and "r = (let B = AList.delete (my_pid w) (port_scan w (if ports = [] then DEFAULT_PORTS else ports) m)
              in map (\<lambda>p. (p, the (map_of B p))) (sort (map fst B)))"
  using assms
  by (auto simp: list_processes_def Let_def split: sum.splits if_splits
           intro: that dest: delete_id [OF iffD1 [OF map_of_eq_None_iff]])

subsection \<open>Selection\<close>

lemma list_processes_map_of:
  assumes "list_processes ports w = Inr r" and "check_output (ps_eo w) ''ps'' = Inr out"
  shows "map_of r = selection_ref ports w (drop 1 (py_splitlines (py_strip out)))"
proof -
  from assms(1) obtain out' m where o: "check_output (ps_eo w) ''ps'' = Inr out'"
    and ms: "marker_scan (drop 1 (py_splitlines (py_strip out'))) [] = Inr m"
    and r: "r = (let B = AList.delete (my_pid w) (port_scan w (if ports = [] then DEFAULT_PORTS else ports) m)
              in map (\<lambda>p. (p, the (map_of B p))) (sort (map fst B)))"
    by (rule list_processes_InrE)
  from o assms(2) have "out' = out" by simp
  let ?B = "AList.delete (my_pid w) (port_scan w (if ports = [] then DEFAULT_PORTS else ports) m)"
  have "map_of r = map_of ?B" by (simp only: r Let_def map_of_sorted_lookup)
  also have "\<dots> = selection_ref ports w (drop 1 (py_splitlines (py_strip out)))"
    using marker_scan_map_of [OF ms] \<open>out' = out\<close>
    by (simp add: delete_conv' port_scan_map_of selection_ref_def)
  finally show ?thesis .
qed

lemma list_processes_no_self:
  assumes "list_processes ports w = Inr r"
  shows "my_pid w \<notin> fst ` set r"
proof -
  obtain out where o: "check_output (ps_eo w) ''ps'' = Inr out"
    using assms by (auto simp: list_processes_def split: sum.splits)
  have "map_of r (my_pid w) = None" using list_processes_map_of [OF assms o] by (simp add: selection_ref_def)
  then show ?thesis by (simp add: map_of_eq_None_iff)
qed

lemma ps_line_fields_Inl: "ps_line_fields l = Inl e \<Longrightarrow> \<exists>s. e = ValueError s"
  by (auto simp: ps_line_fields_def split: list.splits sum.splits dest: py_int_Inl)

lemma marker_scan_Inl: "marker_scan ls m = Inl e \<Longrightarrow> \<exists>s. e = ValueError s"
  by (induction ls arbitrary: m) (auto split: sum.splits option.splits prod.splits dest: ps_line_fields_Inl)

text \<open>The exceptions that leave \<open>list_processes\<close>: those of \<open>ps -eo\<close> and the
  \<open>ValueError\<close> of \<open>int(pid_str)\<close>.\<close>

lemma list_processes_Inl:
  "list_processes ports w = Inl e \<Longrightarrow>
   e = FileNotFoundError ''ps'' \<or> (\<exists>n. e = CalledProcessError n) \<or> (\<exists>s. e = ValueError s)"
  by (auto simp: list_processes_def check_output_def Let_def split: tool_out.splits if_splits sum.splits
      dest: marker_scan_Inl)

text \<open>C8. Refinement: on success, the dictionary that \<open>list_processes\<close> returns (as a
  map from pid to command) is the abstract selection: the marker matches of the
  \<open>ps\<close> lines (last one of a pid wins), then the first listener of each new pid over
  the requested ports (the default ports when none are given), minus the script's
  own pid.\<close>

theorem list_processes_refines:
  assumes "list_processes ports w = Inr r" and "check_output (ps_eo w) ''ps'' = Inr out"
  shows "map_of r = selection_ref ports w (drop 1 (py_splitlines (py_strip out)))"
  using list_processes_map_of [OF assms] .

text \<open>C9. On success the result of \<open>list_processes\<close> is strictly sorted by pid (so no
  pid occurs twice) and never contains the script's own pid.\<close>

theorem list_processes_sorted_no_self:
  assumes "list_processes ports w = Inr r"
  shows "sorted_wrt (<) (map fst r) \<and> my_pid w \<notin> fst ` set r"
proof -
  from assms obtain out m where ms: "marker_scan (drop 1 (py_splitlines (py_strip out))) [] = Inr m"
    and r: "r = (let B = AList.delete (my_pid w) (port_scan w (if ports = [] then DEFAULT_PORTS else ports) m)
              in map (\<lambda>p. (p, the (map_of B p))) (sort (map fst B)))"
    by (rule list_processes_InrE)
  let ?B = "AList.delete (my_pid w) (port_scan w (if ports = [] then DEFAULT_PORTS else ports) m)"
  have "distinct (map fst ?B)"
    using marker_scan_distinct [OF ms] port_scan_distinct by simp
  then have "sorted_wrt (<) (sort (map fst ?B))" by (rule strict_sorted_sort_distinct)
  moreover have "my_pid w \<notin> set (map fst ?B)" by (simp add: delete_keys)
  moreover have mf: "map fst r = sort (map fst ?B)" by (simp only: r Let_def map_fst_map_lookup)
  moreover have "fst ` set r = set (map fst ?B)" using arg_cong [OF mf, of set] by simp
  ultimately show ?thesis by simp
qed

text \<open>C10. Every process whose \<open>ps\<close> line matches a marker is selected, whatever
  ports are given (the script's own process apart): \<open>-p 8081\<close> does not restrict
  the selection to the listeners of port 8081.\<close>

theorem list_processes_keeps_markers:
  assumes "list_processes ports w = Inr r" "check_output (ps_eo w) ''ps'' = Inr out"
    and "(p, c) \<in> set (marker_pairs (drop 1 (py_splitlines (py_strip out))))" "p \<noteq> my_pid w"
  shows "p \<in> fst ` set r"
proof -
  let ?L = "drop 1 (py_splitlines (py_strip out))"
  let ?ports = "if ports = [] then DEFAULT_PORTS else ports"
  have "p \<in> fst ` set (rev (marker_pairs ?L) @ concat (map (list_listeners_on_port w) ?ports))"
    using assms(3) by force
  then have "map_of (rev (marker_pairs ?L) @ concat (map (list_listeners_on_port w) ?ports)) p \<noteq> None"
    by (simp only: map_of_eq_None_iff not_not)
  then have "selection_ref ports w ?L p \<noteq> None" using assms(4) by (simp add: selection_ref_def)
  then have "map_of r p \<noteq> None" using list_processes_map_of [OF assms(1,2)] by simp
  then show ?thesis by (simp add: map_of_eq_None_iff)
qed

subsection \<open>A concrete selection\<close>

lemma sel_demo_run:
  "list_processes [] sel_demo_world = Inr [(200, ''node jest''), (400, ''node app.js'')]"
  by (simp add: sel_eval)

theorem list_processes_refines_witness:
  "list_processes [] sel_demo_world = Inr [(200, ''node jest''), (400, ''node app.js'')] \<and>
   map_of [(200, ''node jest''), (400, ''node app.js'')] =
     selection_ref [] sel_demo_world (drop 1 (py_splitlines (py_strip
       ''    PID CMD\<newline>  100 python3 scripts/kill.py --runTestsByPath\<newline>  200 node jest\<newline>  300 bash\<newline>'')))"
  using sel_demo_run list_processes_refines [OF sel_demo_run,
      of "''    PID CMD\<newline>  100 python3 scripts/kill.py --runTestsByPath\<newline>  200 node jest\<newline>  300 bash\<newline>''"]
  by (simp add: sel_demo_world_def check_output_def)

theorem list_processes_sorted_no_self_witness:
  "sorted_wrt (<) (map fst [(200::pid, ''node jest''), (400, ''node app.js'')]) \<and>
   my_pid sel_demo_world \<notin> fst ` set [(200::pid, ''node jest''), (400, ''node app.js'')] \<and>
   my_pid sel_demo_world = 100"
  using list_processes_sorted_no_self [OF sel_demo_run] by (simp add: sel_demo_world_def)

lemma sel_demo_run_8081:
  "list_processes [8081] sel_demo_world = Inr [(200, ''node jest''), (400, ''node app.js'')]"
  by (simp add: sel_eval)

theorem list_processes_keeps_markers_witness:
  "list_processes [8081] sel_demo_world = Inr [(200, ''node jest''), (400, ''node app.js'')]
   \<and> (200::pid) \<in> fst ` set [(200::pid, ''node jest''), (400, ''node app.js'')]"
  using sel_demo_run_8081 list_processes_keeps_markers [OF sel_demo_run_8081,
      of "''    PID CMD\<newline>  100 python3 scripts/kill.py --runTestsByPath\<newline>  200 node jest\<newline>  300 bash\<newline>''"
      200 "''node jest''"]
  by (simp add: sel_eval)

end
