(* ===== verification/Cli.thy ===== *)
theory Cli
  imports Kill Select
begin

text \<open>
  The \<open>__main__\<close> block of \<open>src/scripts/kill.py\<close> (lines 137-172): the \<open>-p\<close>
  values are split at commas, stripped and converted with \<open>int()\<close> (a token that
  does not convert is reported and dropped), the selection of \<open>list_processes\<close>
  is printed, and with \<open>--kill\<close> the processes are escalated; the exit status is
  2 when some pid could not be killed and 0 otherwise. An exception that escapes
  (from \<open>ps -eo\<close> or \<open>int()\<close> in \<open>list_processes\<close>) ends the script with a
  traceback. \<open>argparse\<close> itself is not modelled: its result is the record below
  (\<open>action="append"\<close> gives the list of \<open>-p\<close> values, empty when none is given).
\<close>

record cli_args =
  arg_ports :: "string list"
  arg_kill :: bool

datatype exit_status = Exit int | Uncaught py_exc

text \<open>\<open>sep.join(xs)\<close> and \<open>str\<close> of a list of ints, as \<open>print\<close> writes it.\<close>

fun py_join :: "string \<Rightarrow> string list \<Rightarrow> string" where
  "py_join sep [] = []"
| "py_join sep [x] = x"
| "py_join sep (x # y # xs) = x @ sep @ py_join sep (y # xs)"

definition py_repr_int_list :: "int list \<Rightarrow> string" where
  "py_repr_int_list xs = ''['' @ py_join '', '' (map py_str_int xs) @ '']''"

text \<open>Lines 150-156: one token of a \<open>-p\<close> value.\<close>

definition parse_tok :: "string \<Rightarrow> port list \<times> world \<Rightarrow> port list \<times> world" where
  "parse_tok tok st = (case st of (ports, w) \<Rightarrow>
     let tok = py_strip tok in
     if tok = [] then (ports, w)
     else (case py_int tok of
             Inr n \<Rightarrow> (ports @ [n], w)
           | Inl _ \<Rightarrow> (ports, print_line (''Warning: ignoring non-numeric port '' @ [CHR 0x27] @ tok @ [CHR 0x27]) w)))"

fun parse_toks :: "string list \<Rightarrow> port list \<times> world \<Rightarrow> port list \<times> world" where
  "parse_toks [] st = st"
| "parse_toks (tok # toks) st = parse_toks toks (parse_tok tok st)"

fun parse_items :: "string list \<Rightarrow> port list \<times> world \<Rightarrow> port list \<times> world" where
  "parse_items [] st = st"
| "parse_items (item # items) st = parse_items items (parse_toks (py_split_sep CHR '','' item) st)"

text \<open>Lines 146-156.\<close>

definition parse_ports :: "string list \<Rightarrow> world \<Rightarrow> port list \<times> world" where
  "parse_ports items w = parse_items items ([], w)"

definition matched_lines :: "(pid \<times> string) list \<Rightarrow> string list" where
  "matched_lines selected = ''Matched processes:'' # map (\<lambda>(pid, cmd). ''  '' @ py_str_int pid @ [CHR 0x09] @ cmd) selected"

text \<open>Lines 146-172; the sleep of \<open>kill_processes\<close> is the parameter \<open>sleep\<close>.\<close>

definition kill_main :: "(world \<Rightarrow> world) \<Rightarrow> cli_args \<Rightarrow> world \<Rightarrow> exit_status \<times> world" where
  "kill_main sleep args w = (case parse_ports (arg_ports args) w of (ports, w) \<Rightarrow>
     (case list_processes ports w of
        Inl e \<Rightarrow> (Uncaught e, w)
      | Inr selected \<Rightarrow>
          if selected = [] then (Exit 0, print_line ''No matching processes found.'' w)
          else let w = print_lines (matched_lines selected) w in
            if arg_kill args then
              (case kill_processes sleep selected w of (failed, w) \<Rightarrow>
                 if failed \<noteq> [] then (Exit 2, print_line (''Some PIDs could not be killed: '' @ py_repr_int_list failed) w)
                 else (Exit 0, print_line ''All matching processes terminated.'' w))
            else (Exit 0, print_line ''(Dry run) Re-run with --kill to terminate them.'' w)))"

text \<open>The outcomes \<open>kill.py\<close> can have: exit status 0 or 2, or a traceback of the
  exceptions \<open>list_processes\<close> lets escape.\<close>

definition exit_conforms :: "exit_status \<Rightarrow> bool" where
  "exit_conforms st = (case st of
      Exit n \<Rightarrow> n = 0 \<or> n = 2
    | Uncaught (FileNotFoundError f) \<Rightarrow> f = ''ps''
    | Uncaught (CalledProcessError n) \<Rightarrow> True
    | Uncaught (ValueError s) \<Rightarrow> True
    | Uncaught _ \<Rightarrow> False)"

subsection \<open>Port parsing\<close>

lemma parse_tok_frame:
  "procs (snd (parse_tok t st)) = procs (snd st) \<and> my_pid (snd (parse_tok t st)) = my_pid (snd st)
   \<and> ps_eo (snd (parse_tok t st)) = ps_eo (snd st)"
  by (auto simp: parse_tok_def Let_def print_line_def split: prod.splits sum.splits)

lemma parse_toks_frame:
  "procs (snd (parse_toks ts st)) = procs (snd st) \<and> my_pid (snd (parse_toks ts st)) = my_pid (snd st)
   \<and> ps_eo (snd (parse_toks ts st)) = ps_eo (snd st)"
  by (induction ts arbitrary: st) (simp_all add: parse_tok_frame)

lemma parse_ports_frame:
  "procs (snd (parse_ports items w)) = procs w \<and> my_pid (snd (parse_ports items w)) = my_pid w
   \<and> ps_eo (snd (parse_ports items w)) = ps_eo w"
proof -
  have "procs (snd (parse_items items st)) = procs (snd st) \<and> my_pid (snd (parse_items items st)) = my_pid (snd st)
      \<and> ps_eo (snd (parse_items items st)) = ps_eo (snd st)" for st
    by (induction items arbitrary: st) (simp_all add: parse_toks_frame)
  then show ?thesis by (simp add: parse_ports_def)
qed

lemma py_split_sep_aux_nosep: "d \<notin> set s \<Longrightarrow> py_split_sep_aux d cur s = [cur @ s]"
  by (induction s arbitrary: cur) auto

lemma py_split_sep_aux_sep:
  "d \<notin> set s \<Longrightarrow> py_split_sep_aux d cur (s @ d # rest) = (cur @ s) # py_split_sep_aux d [] rest"
  by (induction s arbitrary: cur) auto

lemma py_split_sep_join:
  "xs \<noteq> [] \<Longrightarrow> list_all (\<lambda>x. d \<notin> set x) xs \<Longrightarrow> py_split_sep d (py_join [d] xs) = xs"
proof (induction xs)
  case (Cons x xs)
  note ih = Cons.IH and pr = Cons.prems
  show ?case
  proof (cases xs)
    case Nil
    with pr show ?thesis by (simp add: py_split_sep_def py_split_sep_aux_nosep)
  next
    case (Cons y ys)
    with ih pr show ?thesis by (simp add: py_split_sep_def py_split_sep_aux_sep)
  qed
qed simp

lemma py_str_int_chars: "c \<in> set (py_str_int i) \<Longrightarrow> is_ascii_digit c \<or> c = CHR ''-''"
  using nat_digits_digits by (auto simp: py_str_int_def list_all_iff split: if_splits)

lemma py_str_int_nonempty [simp]: "py_str_int i \<noteq> []"
  by (simp add: py_str_int_def)

lemma parse_tok_str_int: "parse_tok (py_str_int i) (ports, w) = (ports @ [i], w)"
  by (simp add: parse_tok_def py_strip_nospace py_str_int_nospace py_int_py_str_int)

lemma parse_toks_str_int: "parse_toks (map py_str_int ps) (ports, w) = (ports @ ps, w)"
  by (induction ps arbitrary: ports) (simp_all add: parse_tok_str_int)

lemma kill_main_kill:
  assumes "arg_kill args" "parse_ports (arg_ports args) w = (ports, w1)" "list_processes ports w1 = Inr r" "r \<noteq> []"
    and "kill_processes sleep r (print_lines (matched_lines r) w1) = (failed, w3)"
  shows "kill_main sleep args w = (if failed \<noteq> [] then
      (Exit 2, print_line (''Some PIDs could not be killed: '' @ py_repr_int_list failed) w3)
    else (Exit 0, print_line ''All matching processes terminated.'' w3))"
  using assms by (simp add: kill_main_def)

subsection \<open>Properties of the command line\<close>

text \<open>C14. Round trip: a \<open>-p\<close> value written as the comma-separated decimal ports
  parses back to exactly those ports, in order, with no warning printed.\<close>

theorem parse_ports_roundtrip: "parse_ports [py_join '','' (map py_str_int ps)] w = (ps, w)"
proof (cases "ps = []")
  case True
  then show ?thesis by (simp add: parse_ports_def py_split_sep_def parse_tok_def py_strip_def)
next
  case False
  have "list_all (\<lambda>x. CHR '','' \<notin> set x) (map py_str_int ps)"
    using py_str_int_chars by (fastforce simp: list_all_iff is_ascii_digit_def)
  then have "py_split_sep CHR '','' (py_join '','' (map py_str_int ps)) = map py_str_int ps"
    using py_split_sep_join [of "map py_str_int ps" "CHR '',''"] False by simp
  then show ?thesis by (simp add: parse_ports_def parse_toks_str_int)
qed

text \<open>C15. A \<open>-p\<close> option none of whose tokens is a number is reported and then
  behaves exactly as \<open>-p 8082,8081\<close>: the script falls back to the default ports
  instead of targeting no port.\<close>

theorem kill_main_invalid_ports_default:
  assumes "parse_ports (arg_ports args) w = ([], w')"
  shows "kill_main sleep args w = kill_main sleep (args\<lparr>arg_ports := [''8082,8081'']\<rparr>) w'"
proof -
  have "parse_ports [''8082,8081''] w' = ([8082, 8081], w')"
    by (simp add: parse_ports_def py_split_sep_def parse_tok_def py_strip_def py_isspace_def py_int_def
        dec_body_ok_def dec_value_def digit_val_def is_ascii_digit_def)
  moreover have "list_processes [] w' = list_processes [8082, 8081] w'"
    by (simp add: list_processes_def DEFAULT_PORTS_def)
  moreover have ak: "arg_kill (args\<lparr>arg_ports := [''8082,8081'']\<rparr>) = arg_kill args" by simp
  ultimately show ?thesis using assms unfolding kill_main_def ak by simp
qed

text \<open>C16. A dry run (no \<open>--kill\<close>) signals no process: the process table is the
  same after the script, whatever it selects or fails with.\<close>

theorem kill_main_dry_run: "\<not> arg_kill args \<Longrightarrow> procs (snd (kill_main sleep args w)) = procs w"
  using parse_ports_frame [of "arg_ports args" w]
  by (auto simp: kill_main_def Let_def split: prod.splits sum.splits)

text \<open>C18. A missing or failing \<open>ps\<close> is not caught: \<open>list_processes\<close> lets the
  exception of \<open>subprocess.check_output\<close> escape and the script ends with it
  (a traceback), having signalled nothing.\<close>

theorem kill_main_ps_error:
  assumes "check_output (ps_eo w) ''ps'' = Inl e"
  shows "fst (kill_main sleep args w) = Uncaught e \<and> procs (snd (kill_main sleep args w)) = procs w"
proof -
  obtain ports w1 where p: "parse_ports (arg_ports args) w = (ports, w1)"
    by (cases "parse_ports (arg_ports args) w")
  have f: "procs w1 = procs w" "ps_eo w1 = ps_eo w" using parse_ports_frame [of "arg_ports args" w] p by simp_all
  then have "list_processes ports w1 = Inl e" using assms by (simp add: list_processes_def)
  then show ?thesis using p f by (simp add: kill_main_def)
qed

text \<open>C23. Every run of \<open>kill.py\<close> ends in one of the outcomes \<open>exit_conforms\<close>
  admits: exit status 0 or 2, or an uncaught \<open>FileNotFoundError\<close> for \<open>ps\<close>,
  \<open>CalledProcessError\<close> or \<open>ValueError\<close>; no other exception (no \<open>IndexError\<close>, no
  \<open>PermissionError\<close>) escapes, and no other status is returned.\<close>

theorem kill_main_exit_conforms: "exit_conforms (fst (kill_main sleep args w))"
proof -
  obtain ports w1 where p: "parse_ports (arg_ports args) w = (ports, w1)"
    by (cases "parse_ports (arg_ports args) w")
  show ?thesis
  proof (cases "list_processes ports w1")
    case (Inl e)
    then show ?thesis using p list_processes_Inl [OF Inl] by (auto simp: kill_main_def exit_conforms_def)
  next
    case (Inr r)
    then show ?thesis using p by (auto simp: kill_main_def exit_conforms_def Let_def split: prod.splits)
  qed
qed

subsection \<open>Concrete runs\<close>

theorem kill_main_invalid_ports_default_witness:
  "parse_ports [''abc''] kill_demo_world = ([], print_line (''Warning: ignoring non-numeric port '' @ [CHR 0x27] @ ''abc'' @ [CHR 0x27]) kill_demo_world)
   \<and> kill_main id \<lparr>arg_ports = [''abc''], arg_kill = True\<rparr> kill_demo_world
     = kill_main id \<lparr>arg_ports = [''8082,8081''], arg_kill = True\<rparr>
         (print_line (''Warning: ignoring non-numeric port '' @ [CHR 0x27] @ ''abc'' @ [CHR 0x27]) kill_demo_world)"
proof -
  have p: "parse_ports [''abc''] kill_demo_world = ([], print_line (''Warning: ignoring non-numeric port '' @ [CHR 0x27] @ ''abc'' @ [CHR 0x27]) kill_demo_world)"
    by (simp add: parse_ports_def py_split_sep_def parse_tok_def py_strip_def py_isspace_def py_int_def
        dec_body_ok_def is_ascii_digit_def)
  show ?thesis
    using p kill_main_invalid_ports_default [of "\<lparr>arg_ports = [''abc''], arg_kill = True\<rparr>" kill_demo_world
        "print_line (''Warning: ignoring non-numeric port '' @ [CHR 0x27] @ ''abc'' @ [CHR 0x27]) kill_demo_world" id]
    by simp
qed

theorem kill_main_dry_run_witness:
  "procs (snd (kill_main id \<lparr>arg_ports = [], arg_kill = False\<rparr> sel_demo_world)) = procs sel_demo_world"
  using kill_main_dry_run [of "\<lparr>arg_ports = [], arg_kill = False\<rparr>"] by simp

theorem kill_main_ps_error_witness:
  "fst (kill_main id \<lparr>arg_ports = [], arg_kill = True\<rparr> kill_demo_world) = Uncaught (FileNotFoundError ''ps'')
   \<and> procs (snd (kill_main id \<lparr>arg_ports = [], arg_kill = True\<rparr> kill_demo_world)) = procs kill_demo_world"
proof -
  have "check_output (ps_eo kill_demo_world) ''ps'' = Inl (FileNotFoundError ''ps'')"
    by (simp add: kill_demo_world_def check_output_def)
  from kill_main_ps_error [OF this] show ?thesis .
qed

end
