(* ===== verification/Emulator.thy ===== *)
theory Emulator
  imports Os
begin

text \<open>
  \<open>src/utls/kill_android_emulator.py\<close>: \<open>get_emulator_pids\<close> reads \<open>ps aux\<close>, keeps
  the lines that contain \<open>emulator\<close> and not \<open>grep\<close> and takes the second field
  as the pid; any exception of the scan is printed and yields no process.
  \<open>kill_emulators\<close> prints the processes found and sends each SIGKILL, printing a
  message for every pid that cannot be signalled.
\<close>

text \<open>Line 13: \<open>'emulator' in line and not 'grep' in line\<close>.\<close>

definition emu_line_match :: "string \<Rightarrow> bool" where
  "emu_line_match line \<longleftrightarrow> py_in ''emulator'' line \<and> \<not> py_in ''grep'' line"

text \<open>Lines 12-16: \<open>parts[1]\<close> raises \<open>IndexError\<close> on a line of fewer than two
  fields, \<open>int(parts[1])\<close> raises \<open>ValueError\<close>; both leave the loop.\<close>

fun emu_scan :: "string list \<Rightarrow> (pid \<times> string) list \<Rightarrow> py_exc + (pid \<times> string) list" where
  "emu_scan [] emulator_procs = Inr emulator_procs"
| "emu_scan (line # ls) emulator_procs =
     (if emu_line_match line then
        (let parts = py_split line in
         if length parts < 2 then Inl IndexError
         else (case py_int (parts ! 1) of
                 Inl e \<Rightarrow> Inl e
               | Inr pid \<Rightarrow> emu_scan ls (emulator_procs @ [(pid, line)])))
      else emu_scan ls emulator_procs)"

text \<open>Lines 7-17, the body of the \<open>try\<close>: \<open>subprocess.run\<close> raises only when
  \<open>ps\<close> cannot be executed.\<close>

definition emu_ps_scan :: "world \<Rightarrow> py_exc + (pid \<times> string) list" where
  "emu_ps_scan w = (case run_stdout (ps_aux w) ''ps'' of
      Inl e \<Rightarrow> Inl e
    | Inr out \<Rightarrow> emu_scan (py_splitlines out) [])"

definition get_emulator_pids :: "world \<Rightarrow> (pid \<times> string) list \<times> world" where
  "get_emulator_pids w = (case emu_ps_scan w of
      Inr emulator_procs \<Rightarrow> (emulator_procs, w)
    | Inl e \<Rightarrow> ([], print_line (''Error detecting emulator processes: '' @ exc_str e) w))"

text \<open>Lines 31-35: one iteration of the kill loop.\<close>

definition emu_kill_one :: "pid \<times> string \<Rightarrow> world \<Rightarrow> world" where
  "emu_kill_one pc w = (case pc of (pid, cmd) \<Rightarrow>
     let w = print_line (''Killing emulator process PID '' @ py_str_int pid @ ''...'') w in
     (case os_kill pid SIGKILL w of
        Inr w' \<Rightarrow> w'
      | Inl e \<Rightarrow> print_line (''Failed to kill PID '' @ py_str_int pid @ '': '' @ exc_str (kill_exc e)) w))"

fun emu_kill_pass :: "(pid \<times> string) list \<Rightarrow> world \<Rightarrow> world" where
  "emu_kill_pass [] w = w"
| "emu_kill_pass (pc # rest) w = emu_kill_pass rest (emu_kill_one pc w)"

definition emu_list_lines :: "(pid \<times> string) list \<Rightarrow> string list" where
  "emu_list_lines emulator_procs = map (\<lambda>(pid, cmd). ''  PID: '' @ py_str_int pid @ '' | CMD: '' @ cmd) emulator_procs"

text \<open>Lines 22-35.\<close>

definition kill_emulators :: "world \<Rightarrow> world" where
  "kill_emulators w = (case get_emulator_pids w of (emulator_procs, w) \<Rightarrow>
     if emulator_procs = [] then print_line ''No Android emulator processes found.'' w
     else emu_kill_pass emulator_procs
            (print_lines (emu_list_lines emulator_procs)
              (print_line (''Found '' @ py_str_int (int (length emulator_procs)) @ '' Android emulator process(es):'') w)))"

text \<open>Lines 37-38: the script's entry point.\<close>

definition emulator_main :: "world \<Rightarrow> world" where
  "emulator_main w = kill_emulators w"

text \<open>A concrete \<open>ps aux\<close> listing: two emulators of the user (100, 300), the
  script (200) run under the command line given as the parameter, and an emulator
  of another user (400).\<close>

definition emu_proc :: "string \<Rightarrow> bool \<Rightarrow> proc" where
  "emu_proc c m = \<lparr>cmdline = c, may_signal = m, exits_on_term = True, pgid = 1\<rparr>"

definition emu_demo_world :: "string \<Rightarrow> world" where
  "emu_demo_world self = \<lparr>procs = [(100, emu_proc ''emulator -avd Pixel'' True), (200, emu_proc self True),
      (300, emu_proc ''emulator -avd Tablet'' True), (400, emu_proc ''emulator -avd Other'' False)],
    my_pid = 200, stdout = [], ps_eo = NotInstalled,
    ps_aux = Ran 0 (''USER PID COMMAND\<newline>me 100 emulator -avd Pixel\<newline>me 200 '' @ self
      @ ''\<newline>me 300 emulator -avd Tablet\<newline>you 400 emulator -avd Other\<newline>''),
    ps_p = (\<lambda>_. NotInstalled), lsof = (\<lambda>_. NotInstalled), ss_ltnp = NotInstalled\<rparr>"

text \<open>A listing with a line that names an emulator but has a single field.\<close>

definition emu_bad_world :: world where
  "emu_bad_world = (emu_demo_world ''python3 kill_avd.py'')\<lparr>ps_aux :=
     Ran 0 ''USER PID COMMAND\<newline>me 100 emulator -avd Pixel\<newline>emulator-5554\<newline>''\<rparr>"

subsection \<open>The kill loop\<close>

lemma emu_kill_one_frame:
  assumes "procs_ok w"
  shows "procs_ok (emu_kill_one pc w)" and "set (procs (emu_kill_one pc w)) \<subseteq> set (procs w)"
    and "my_pid (emu_kill_one pc w) = my_pid w"
  using assms os_kill_procs_ok [of "print_line _ w"] os_kill_Inr_shape [of _ _ "print_line _ w"]
    os_kill_Inr_frame [of _ _ "print_line _ w"]
  by (auto simp: emu_kill_one_def Let_def split: prod.splits sum.splits)

lemma emu_kill_pass_frame:
  "procs_ok w \<Longrightarrow> procs_ok (emu_kill_pass ps w) \<and> set (procs (emu_kill_pass ps w)) \<subseteq> set (procs w)
     \<and> my_pid (emu_kill_pass ps w) = my_pid w"
proof (induction ps arbitrary: w)
  case Nil
  then show ?case by simp
next
  case (Cons pc ps)
  have "procs_ok (emu_kill_one pc w)" "set (procs (emu_kill_one pc w)) \<subseteq> set (procs w)"
    "my_pid (emu_kill_one pc w) = my_pid w"
    by (rule emu_kill_one_frame [OF Cons.prems])+
  with Cons.IH [of "emu_kill_one pc w"] show ?case by (simp only: emu_kill_pass.simps) blast
qed

lemma emu_kill_one_dead: "\<not> self_alive w \<Longrightarrow> emu_kill_one pc w = w"
  by (simp add: emu_kill_one_def print_line_dead os_kill_dead split: prod.splits)

lemma emu_kill_pass_dead: "\<not> self_alive w \<Longrightarrow> emu_kill_pass ps w = w"
  by (induction ps) (simp_all add: emu_kill_one_dead)

lemma emu_kill_pass_append: "emu_kill_pass (xs @ ys) w = emu_kill_pass ys (emu_kill_pass xs w)"
  by (induction xs arbitrary: w) simp_all

lemma emu_kill_one_pos:
  assumes pos: "0 < pid" "pid \<noteq> my_pid w" and ok: "procs_ok w" "self_alive w"
  shows "set (procs (emu_kill_one (pid, c) w)) = {x \<in> set (procs w). \<not> (fst x = pid \<and> may_signal (snd x))}
    \<and> self_alive (emu_kill_one (pid, c) w)"
proof -
  define w1 where "w1 = print_line (''Killing emulator process PID '' @ py_str_int pid @ ''...'') w"
  have ok1: "procs_ok w1" "self_alive w1" "my_pid w1 = my_pid w" "procs w1 = procs w"
    using ok by (simp_all add: w1_def)
  show ?thesis
  proof (cases "os_kill pid SIGKILL w1")
    case (Inr w2)
    note step = os_kill_pos_Inr [OF pos(1) ok1(1,2) Inr]
    from step(6) obtain r where r: "map_of (procs w1) pid = Some r" "may_signal r" by blast
    have "x \<in> set (procs w1) \<Longrightarrow> fst x = pid \<Longrightarrow> may_signal (snd x)" for x
      using procs_ok_entry [OF ok1(1) r(1)] r(2) by metis
    then have "set (procs w2) = {x \<in> set (procs w). \<not> (fst x = pid \<and> may_signal (snd x))}"
      using step(7) ok1(4) by (auto simp: survives_def)
    moreover have "self_alive w2" using os_kill_pos_keeps_self [OF pos(1) _ ok1(1,2) Inr] pos(2) ok1(3) by simp
    ultimately show ?thesis using Inr by (simp add: emu_kill_one_def w1_def)
  next
    case (Inl e)
    have "\<not> may_signal (snd x)" if x: "x \<in> set (procs w1)" "fst x = pid" for x
      using os_kill_pos_Inl [OF pos(1) ok1(1,2) Inl]
    proof (elim disjE conjE exE)
      assume "map_of (procs w1) pid = None"
      with x show ?thesis using map_of_None_entry by metis
    next
      fix r assume "map_of (procs w1) pid = Some r" "\<not> may_signal r"
      with x show ?thesis using procs_ok_entry [OF ok1(1)] by metis
    qed
    then have "set (procs w) = {x \<in> set (procs w). \<not> (fst x = pid \<and> may_signal (snd x))}"
      using ok1(4) by auto
    moreover have "emu_kill_one (pid, c) w
        = print_line (''Failed to kill PID '' @ py_str_int pid @ '': '' @ exc_str (kill_exc e)) w1"
      using Inl by (simp add: emu_kill_one_def w1_def)
    ultimately show ?thesis using ok1 by simp
  qed
qed

lemma emu_kill_one_self:
  assumes ok: "procs_ok w" "self_alive w" "0 < my_pid w" and r: "map_of (procs w) (my_pid w) = Some r" "may_signal r"
  shows "set (procs (emu_kill_one (my_pid w, c) w)) = {x \<in> set (procs w). fst x \<noteq> my_pid w}
    \<and> \<not> self_alive (emu_kill_one (my_pid w, c) w)"
proof -
  define w1 where "w1 = print_line (''Killing emulator process PID '' @ py_str_int (my_pid w) @ ''...'') w"
  have k: "os_kill (my_pid w) SIGKILL w1 = Inr (w1\<lparr>procs := AList.delete (my_pid w) (procs w)\<rparr>)"
    using ok r by (simp add: w1_def os_kill_pos procs_ok_def survives_def)
  have "set (AList.delete (my_pid w) (procs w)) = {x \<in> set (procs w). fst x \<noteq> my_pid w}"
    by (auto simp: AList.delete_eq)
  moreover have "map_of (AList.delete (my_pid w) (procs w)) (my_pid w) = None" by (simp add: delete_conv')
  ultimately show ?thesis using k by (simp add: emu_kill_one_def w1_def [symmetric] self_alive_def w1_def)
qed

lemma emu_kill_pass_pos:
  assumes "procs_ok w" "self_alive w" "list_all (\<lambda>(p, c). 0 < p \<and> p \<noteq> my_pid w) ps"
  shows "set (procs (emu_kill_pass ps w)) = {x \<in> set (procs w). \<not> (fst x \<in> fst ` set ps \<and> may_signal (snd x))}
    \<and> self_alive (emu_kill_pass ps w)"
  using assms
proof (induction ps arbitrary: w)
  case Nil
  then show ?case by simp
next
  case (Cons pc ps)
  obtain p c where pc: "pc = (p, c)" by (cases pc)
  from Cons.prems pc have pos: "0 < p" "p \<noteq> my_pid w" by simp_all
  let ?w1 = "emu_kill_one (p, c) w"
  have one: "set (procs ?w1) = {x \<in> set (procs w). \<not> (fst x = p \<and> may_signal (snd x))}" "self_alive ?w1"
    using emu_kill_one_pos [OF pos Cons.prems(1,2)] by simp_all
  have fr: "procs_ok ?w1" "my_pid ?w1 = my_pid w" using emu_kill_one_frame [OF Cons.prems(1)] by simp_all
  have "list_all (\<lambda>(p, c). 0 < p \<and> p \<noteq> my_pid ?w1) ps" using Cons.prems(3) fr(2) pc by simp
  with Cons.IH [OF fr(1) one(2)] one(1) show ?case by (auto simp: pc)
qed

lemma kill_emulators_found:
  "emu_ps_scan w = Inr ps \<Longrightarrow> ps \<noteq> [] \<Longrightarrow> kill_emulators w = emu_kill_pass ps
     (print_lines (emu_list_lines ps) (print_line (''Found '' @ py_str_int (int (length ps)) @ '' Android emulator process(es):'') w))"
  by (simp add: kill_emulators_def get_emulator_pids_def)

lemma emu_scan_bad_line:
  "emu_line_match l \<Longrightarrow> length (py_split l) < 2 \<or> isl (py_int (py_split l ! 1)) \<Longrightarrow>
   isl (emu_scan (ls1 @ l # ls2) acc)"
  by (induction ls1 arbitrary: acc) (auto simp: Let_def split: sum.splits)

subsection \<open>Properties of the emulator killer\<close>

text \<open>C12. When the scan succeeds and no listed pid is the script's own, exactly the
  listed processes that the script may signal are gone afterwards, every other
  process is untouched, and the script is still running.\<close>

theorem kill_emulators_exact_effect:
  assumes ok: "procs_ok w" "self_alive w" and scan: "emu_ps_scan w = Inr ps"
    and tg: "list_all (\<lambda>(p, c). 0 < p \<and> p \<noteq> my_pid w) ps"
  shows "set (procs (kill_emulators w)) = {x \<in> set (procs w). \<not> (fst x \<in> fst ` set ps \<and> may_signal (snd x))}
    \<and> self_alive (kill_emulators w)"
proof (cases "ps = []")
  case True
  then show ?thesis using ok scan by (simp add: kill_emulators_def get_emulator_pids_def)
next
  case False
  let ?w1 = "print_lines (emu_list_lines ps) (print_line (''Found '' @ py_str_int (int (length ps)) @ '' Android emulator process(es):'') w)"
  have w1: "procs_ok ?w1" "self_alive ?w1" "my_pid ?w1 = my_pid w" "procs ?w1 = procs w" using ok by simp_all
  show ?thesis
    using kill_emulators_found [OF scan False] emu_kill_pass_pos [OF w1(1,2), of ps] tg w1(3,4) by simp
qed

text \<open>C11. The script kills itself: its own \<open>ps aux\<close> line contains \<open>emulator\<close>
  (the file is \<open>kill_android_emulator.py\<close>), so when it is listed after the
  processes \<open>xs\<close>, it SIGKILLs itself after them, and no process listed after it is
  signalled.\<close>

theorem kill_emulators_kills_itself:
  assumes ok: "procs_ok w" "self_alive w" "0 < my_pid w"
    and scan: "emu_ps_scan w = Inr (xs @ (my_pid w, c) # ys)"
    and tg: "list_all (\<lambda>(p, c). 0 < p \<and> p \<noteq> my_pid w) xs"
    and r: "map_of (procs w) (my_pid w) = Some r" "may_signal r"
  shows "\<not> self_alive (kill_emulators w)
    \<and> set (procs (kill_emulators w))
        = {x \<in> set (procs w). \<not> (fst x \<in> fst ` set xs \<and> may_signal (snd x)) \<and> fst x \<noteq> my_pid w}"
proof -
  let ?ps = "xs @ (my_pid w, c) # ys"
  let ?w1 = "print_lines (emu_list_lines ?ps) (print_line (''Found '' @ py_str_int (int (length ?ps)) @ '' Android emulator process(es):'') w)"
  let ?w2 = "emu_kill_pass xs ?w1"
  have w1: "procs_ok ?w1" "self_alive ?w1" "my_pid ?w1 = my_pid w" "procs ?w1 = procs w" using ok by simp_all
  have s2: "set (procs ?w2) = {x \<in> set (procs w). \<not> (fst x \<in> fst ` set xs \<and> may_signal (snd x))}" "self_alive ?w2"
    using emu_kill_pass_pos [OF w1(1,2), of xs] tg w1(3,4) by simp_all
  have f2: "procs_ok ?w2" "my_pid ?w2 = my_pid w" using emu_kill_pass_frame [OF w1(1), of xs] w1(3) by simp_all
  have "(my_pid w, r) \<in> set (procs w)" using r(1) by (rule map_of_SomeD)
  moreover have "my_pid w \<notin> fst ` set xs" using tg by (auto simp: list_all_iff)
  ultimately have "(my_pid w, r) \<in> set (procs ?w2)" using s2(1) by simp
  then have r2: "map_of (procs ?w2) (my_pid ?w2) = Some r" using f2 by (simp add: procs_ok_def map_of_is_SomeI)
  have "0 < my_pid ?w2" using ok(3) f2(2) by simp
  note self = emu_kill_one_self [OF f2(1) s2(2) this r2 r(2), of c]
  have "kill_emulators w = emu_kill_pass ys (emu_kill_one (my_pid ?w2, c) ?w2)"
    using kill_emulators_found [OF scan] f2(2) by (simp add: emu_kill_pass_append)
  also have "\<dots> = emu_kill_one (my_pid ?w2, c) ?w2" using self by (simp add: emu_kill_pass_dead)
  finally show ?thesis using self s2(1) f2(2) by auto
qed

text \<open>C13. The scan is all or nothing: one line that contains \<open>emulator\<close> (and not
  \<open>grep\<close>) but has no integer second field makes \<open>get_emulator_pids\<close> return no
  process, wherever the line is, so \<open>kill_emulators\<close> signals nothing.\<close>

theorem kill_emulators_bad_line:
  assumes "run_stdout (ps_aux w) ''ps'' = Inr out" "py_splitlines out = ls1 @ l # ls2"
    and "emu_line_match l" "length (py_split l) < 2 \<or> isl (py_int (py_split l ! 1))"
  shows "procs (kill_emulators w) = procs w \<and> fst (get_emulator_pids w) = []"
proof -
  have "isl (emu_ps_scan w)" using emu_scan_bad_line [OF assms(3,4), of ls1 ls2 "[]"] assms(1,2)
    by (simp add: emu_ps_scan_def)
  then obtain e where "emu_ps_scan w = Inl e" by (cases "emu_ps_scan w") simp_all
  then show ?thesis by (simp add: kill_emulators_def get_emulator_pids_def)
qed

text \<open>C21. The scan, when it succeeds, keeps exactly the lines that contain
  \<open>emulator\<close> and do not contain \<open>grep\<close>, in their \<open>ps aux\<close> order, each paired with
  the integer of its second field.\<close>

theorem emu_scan_spec:
  "emu_scan ls acc = Inr r \<Longrightarrow>
   r = acc @ map (\<lambda>line. (projr (py_int (py_split line ! 1)), line))
                 (filter (\<lambda>line. py_in ''emulator'' line \<and> \<not> py_in ''grep'' line) ls)"
proof (induction ls arbitrary: acc)
  case (Cons l ls)
  show ?case
  proof (cases "emu_line_match l")
    case False
    have "emu_scan ls acc = Inr r" using Cons.prems False by simp
    moreover have "\<not> (py_in ''emulator'' l \<and> \<not> py_in ''grep'' l)" using False by (simp add: emu_line_match_def)
    ultimately show ?thesis using Cons.IH by auto
  next
    case True
    with Cons.prems obtain pid where "py_int (py_split l ! 1) = Inr pid" "emu_scan ls (acc @ [(pid, l)]) = Inr r"
      by (auto simp: Let_def split: if_splits sum.splits)
    with Cons.IH [of "acc @ [(pid, l)]"] True show ?thesis by (simp add: emu_line_match_def)
  qed
qed simp

subsection \<open>Concrete runs\<close>

lemmas emu_eval = emu_demo_world_def emu_ps_scan_def run_stdout_def py_splitlines_def py_is_linebreak_def
  emu_line_match_def py_split_def py_isspace_def py_int_def py_strip_def dec_body_ok_def dec_value_def
  digit_val_def is_ascii_digit_def

lemma emu_demo_scan_self:
  "emu_ps_scan (emu_demo_world ''python3 kill_android_emulator.py'') = Inr [(100, ''me 100 emulator -avd Pixel''),
     (200, ''me 200 python3 kill_android_emulator.py''), (300, ''me 300 emulator -avd Tablet''),
     (400, ''you 400 emulator -avd Other'')]"
  by (simp add: emu_eval)

lemma emu_demo_scan_other:
  "emu_ps_scan (emu_demo_world ''python3 kill_avd.py'') = Inr [(100, ''me 100 emulator -avd Pixel''),
     (300, ''me 300 emulator -avd Tablet''), (400, ''you 400 emulator -avd Other'')]"
  by (simp add: emu_eval)

theorem kill_emulators_exact_effect_witness:
  "(200, emu_proc ''python3 kill_avd.py'' True) \<in> set (procs (kill_emulators (emu_demo_world ''python3 kill_avd.py'')))
   \<and> (400, emu_proc ''emulator -avd Other'' False) \<in> set (procs (kill_emulators (emu_demo_world ''python3 kill_avd.py'')))
   \<and> (300, emu_proc ''emulator -avd Tablet'' True) \<notin> set (procs (kill_emulators (emu_demo_world ''python3 kill_avd.py'')))
   \<and> self_alive (kill_emulators (emu_demo_world ''python3 kill_avd.py''))"
  using kill_emulators_exact_effect [OF _ _ emu_demo_scan_other]
  by (simp add: emu_demo_world_def procs_ok_def self_alive_def emu_proc_def)

theorem kill_emulators_kills_itself_witness:
  "\<not> self_alive (kill_emulators (emu_demo_world ''python3 kill_android_emulator.py''))
   \<and> (300, emu_proc ''emulator -avd Tablet'' True) \<in> set (procs (kill_emulators (emu_demo_world ''python3 kill_android_emulator.py'')))
   \<and> (100, emu_proc ''emulator -avd Pixel'' True) \<notin> set (procs (kill_emulators (emu_demo_world ''python3 kill_android_emulator.py'')))"
proof -
  have s: "emu_ps_scan (emu_demo_world ''python3 kill_android_emulator.py'') = Inr ([(100, ''me 100 emulator -avd Pixel'')]
      @ (my_pid (emu_demo_world ''python3 kill_android_emulator.py''), ''me 200 python3 kill_android_emulator.py'')
      # [(300, ''me 300 emulator -avd Tablet''), (400, ''you 400 emulator -avd Other'')])"
    by (simp only: emu_demo_scan_self) (simp add: emu_demo_world_def)
  show ?thesis
    using kill_emulators_kills_itself [OF _ _ _ s, where r = "emu_proc ''python3 kill_android_emulator.py'' True"]
    by (simp add: emu_demo_world_def procs_ok_def self_alive_def emu_proc_def)
qed

theorem kill_emulators_bad_line_witness:
  "procs (kill_emulators emu_bad_world) = procs emu_bad_world \<and> fst (get_emulator_pids emu_bad_world) = []"
  using kill_emulators_bad_line [of emu_bad_world
      "''USER PID COMMAND\<newline>me 100 emulator -avd Pixel\<newline>emulator-5554\<newline>''"
      "[''USER PID COMMAND'', ''me 100 emulator -avd Pixel'']" "''emulator-5554''" "[]"]
  by (simp add: emu_bad_world_def emu_eval)

theorem emu_scan_spec_witness:
  "emu_scan (py_splitlines (''USER PID COMMAND\<newline>me 100 emulator -avd Pixel\<newline>me 200 '' @ ''python3 kill_avd.py''
      @ ''\<newline>me 300 emulator -avd Tablet\<newline>you 400 emulator -avd Other\<newline>'')) []
     = Inr [(100, ''me 100 emulator -avd Pixel''), (300, ''me 300 emulator -avd Tablet''), (400, ''you 400 emulator -avd Other'')]
   \<and> map snd [(100::pid, ''me 100 emulator -avd Pixel''), (300, ''me 300 emulator -avd Tablet''), (400, ''you 400 emulator -avd Other'')]
     = filter (\<lambda>line. py_in ''emulator'' line \<and> \<not> py_in ''grep'' line) (py_splitlines (''USER PID COMMAND\<newline>me 100 emulator -avd Pixel\<newline>me 200 '' @ ''python3 kill_avd.py''
      @ ''\<newline>me 300 emulator -avd Tablet\<newline>you 400 emulator -avd Other\<newline>''))"
proof -
  have s: "emu_scan (py_splitlines (''USER PID COMMAND\<newline>me 100 emulator -avd Pixel\<newline>me 200 '' @ ''python3 kill_avd.py''
      @ ''\<newline>me 300 emulator -avd Tablet\<newline>you 400 emulator -avd Other\<newline>'')) []
     = Inr [(100, ''me 100 emulator -avd Pixel''), (300, ''me 300 emulator -avd Tablet''), (400, ''you 400 emulator -avd Other'')]"
    using emu_demo_scan_other by (simp only: emu_ps_scan_def emu_demo_world_def run_stdout_def world.select_convs tool_out.case sum.case)
  show ?thesis using emu_scan_spec [OF s] s by (simp add: comp_def)
qed

end
