(* ===== verification/Spec2Isabelle.thy ===== *)
theory Spec2Isabelle
  imports Cli Emulator
begin

text \<open>
  A verification development of the two process-killing scripts of the
  repository, \<open>src/scripts/kill.py\<close> and \<open>src/utls/kill_android_emulator.py\<close>.

  \<^bold>\<open>The program.\<close> \<open>kill.py\<close> selects lingering test processes and servers and
  optionally kills them. \<open>list_processes\<close> reads \<open>ps -eo pid,cmd\<close> and keeps the
  lines whose command contains a marker (\<open>MARKERS\<close>), then adds the listeners of
  each requested TCP port (\<open>DEFAULT_PORTS\<close> 8082 and 8081 when none is given),
  found by \<open>list_listeners_on_port\<close> with \<open>lsof\<close> and, when that raises, with
  \<open>ss -ltnp\<close>; it removes its own pid and sorts by pid. \<open>kill_processes\<close> sends
  SIGTERM to every selected pid, sleeps one second, and sends SIGKILL to those that
  \<open>process_alive\<close> still reports, collecting the pids it could not signal. The
  \<open>__main__\<close> block parses the \<open>-p\<close> values, prints the selection and, with
  \<open>--kill\<close>, escalates and exits with 2 when some pid could not be killed.
  \<open>kill_android_emulator.py\<close> lists the \<open>ps aux\<close> lines containing \<open>emulator\<close>
  (\<open>get_emulator_pids\<close>) and SIGKILLs each (\<open>kill_emulators\<close>).

  \<^bold>\<open>The theories.\<close>
  \<^item> \<open>Prelude\<close>: pids and ports as \<open>int\<close> (Python's unbounded integers), the
    exceptions \<open>py_exc\<close> that the scripts raise or catch, and lemmas on sorted lists
    and association lists shared by the components.
  \<^item> \<open>PyStr\<close>: the Python string builtins the scripts call, as executable functions
    on Latin-1 strings: \<open>isspace\<close>, \<open>strip\<close>, \<open>split()\<close>, \<open>split(maxsplit=1)\<close>,
    \<open>split(',')\<close>, \<open>splitlines\<close>, \<open>lower\<close>, \<open>isdigit\<close> (which, as in Python, accepts
    the superscript digits), \<open>in\<close>, \<open>endswith\<close>, \<open>int()\<close> (sign, surrounding
    whitespace and PEP 515 underscores) and \<open>str\<close> of an int, with the round trip
    \<open>int(str(i)) = i\<close>.
  \<^item> \<open>Os\<close>: the world the scripts act on, a record of the process table (pid to
    command line, whether the script may signal it, whether it exits on SIGTERM,
    its process group), the script's pid, the lines printed, and the outputs of
    \<open>ps\<close>, \<open>lsof\<close> and \<open>ss\<close>, which are arbitrary, so every theorem holds for every
    output; \<open>check_output\<close> and \<open>run\<close>; \<open>os_kill\<close> is \<open>kill(2)\<close> with ESRCH and
    EPERM, signal 0, and pids 0, -1 and below -1. A script whose own process is
    gone performs no further effect.
  \<^item> \<open>Kill\<close>: \<open>process_alive\<close> and \<open>kill_processes\<close> (\<open>term_one\<close>/\<open>term_pass\<close> and
    \<open>kill_one\<close>/\<open>kill_pass\<close> are the two loops); the pass invariants
    \<open>term_inv\<close> and \<open>kill_inv\<close> give the exact effect of the escalation.
  \<^item> \<open>Listeners\<close>: \<open>_ps_cmd\<close> (\<open>ps_cmd\<close>) and \<open>list_listeners_on_port\<close>: the \<open>lsof\<close>
    row loop \<open>lsof_scan\<close>, the \<open>ss\<close> fallback \<open>ss_fallback\<close>/\<open>ss_scan\<close> and the
    search for \<open>pid=(\d+)\<close> (\<open>re_search_pid\<close>).
  \<^item> \<open>Select\<close>: \<open>list_processes\<close>, with the marker pass \<open>marker_scan\<close>, the port
    pass \<open>port_scan\<close>/\<open>add_listeners\<close>, and the dictionary \<open>by_pid\<close> as an
    association list; it is refined to the map \<open>selection_ref\<close>.
  \<^item> \<open>Cli\<close>: the \<open>__main__\<close> block of \<open>kill.py\<close> as \<open>kill_main\<close>, with the port
    parser \<open>parse_ports\<close> and the exit status (\<open>Exit\<close> or an \<open>Uncaught\<close>
    exception).
  \<^item> \<open>Emulator\<close>: \<open>get_emulator_pids\<close> (the scan \<open>emu_scan\<close> inside its \<open>try\<close>)
    and \<open>kill_emulators\<close> (the loop \<open>emu_kill_pass\<close>).
  \<^item> this theory: the property of the whole command \<open>kill.py --kill\<close>.

  \<^bold>\<open>What is shown.\<close> For \<open>kill.py\<close>: the escalation is complete and reports
  exactly the pids it may not signal, removes exactly the signalable selected
  processes, and treats an EPERM process as dead (C1-C4); when a pid is reused
  during the sleep, the SIGKILL pass kills the new process, whatever it runs (C5,
  a bug); the listeners are distinct and non-negative (C6); a pid column that
  passes \<open>isdigit\<close> but not \<open>int()\<close> (superscript digits) ends the \<open>lsof\<close> loop
  and hands the rows found so far to \<open>ss\<close>, dropping every later row (C7); and on
  the \<open>ss\<close> path every socket line yields at most one pid, so only the first
  process of a shared socket is found (C20). The selection refines its map
  specification, is sorted and never contains the script, and keeps every marker
  match whatever the ports (C8-C10). For the emulator killer: the script SIGKILLs
  itself because its own command line contains \<open>emulator\<close> (C11, a bug),
  otherwise it removes exactly the signalable listed processes (C12), one
  malformed line cancels every kill (C13), and the scan keeps exactly the lines
  with \<open>emulator\<close> and without \<open>grep\<close>, in order, paired with their pid column
  (C21). For the command line: the port syntax round-trips (C14), a \<open>-p\<close> without
  a valid port falls back to the default ports (C15), a dry run kills nothing
  (C16), exit status 0 after \<open>--kill\<close> means every selected process is gone while
  the script survives (C17), and a missing or failing \<open>ps\<close> ends the script with
  an uncaught exception (C18). The escalation prints between \<open>n\<close> and \<open>2 n\<close> lines
  for \<open>n\<close> matched processes (C19): all SIGTERM lines in list order, then SIGKILL
  lines for a subsequence of the list (C22). Every run ends with status 0 or 2 or
  with one of the exceptions of \<open>ps\<close> and \<open>int()\<close> (C23).

  \<^bold>\<open>Parameters.\<close> The one-second \<open>time.sleep\<close> is a function \<open>sleep\<close> on worlds;
  the theorems about escalation assume only \<open>sleep_ok\<close>: during the sleep
  processes may exit but none appears or changes and the script keeps running
  (pid reuse, C5, is the one theorem that lets a process appear). No loop of the
  scripts can run forever (every loop is a \<open>for\<close> over a finite list), so every
  operation is a total function and no fuel is needed; for the same reason the
  development states no separate termination or liveness property: the scripts
  have no loop that waits for an event, and the one wait, the sleep, is a single
  step of the model.

  \<^bold>\<open>Not modelled.\<close> \<open>argparse\<close> (its result is the record \<open>cli_args\<close>); the
  text of tracebacks and the exact message of \<open>CalledProcessError\<close>; Unicode
  beyond Latin-1 (\<open>char\<close> is a byte; \<open>isdigit\<close> is exact on it); signal handlers
  other than "exit on SIGTERM", zombies, and process-group members created during
  the run; \<open>OverflowError\<close> of \<open>os.kill\<close> for pids beyond the C \<open>int\<close> range
  (modelled as ESRCH).
\<close>

text \<open>C17. \<open>kill.py --kill\<close> never kills itself and exits with 0 or 2, and exit
  status 0 (the message "All matching processes terminated.") is true: every
  selected process is gone, for any behaviour of the system during the sleep that
  only lets processes exit.\<close>

theorem kill_main_exit_zero:
  assumes sl: "sleep_ok sleep" and ok: "procs_ok w" "self_alive w" and k: "arg_kill args"
    and p: "parse_ports (arg_ports args) w = (ports, w1)" and lp: "list_processes ports w1 = Inr r"
    and pos: "list_all (\<lambda>x. 0 < fst x) r"
    and run: "kill_main sleep args w = (code, w')"
  shows "self_alive w' \<and> code \<in> {Exit 0, Exit 2}
    \<and> (code = Exit 0 \<longrightarrow> (\<forall>x \<in> set r. map_of (procs w') (fst x) = None))"
proof -
  have f1: "procs w1 = procs w" "my_pid w1 = my_pid w" using parse_ports_frame [of "arg_ports args" w] p by simp_all
  show ?thesis
  proof (cases "r = []")
    case True
    then show ?thesis using p lp run ok f1 by (auto simp: kill_main_def self_alive_def)
  next
    case False
    let ?w2 = "print_lines (matched_lines r) w1"
    obtain failed w3 where kp: "kill_processes sleep r ?w2 = (failed, w3)" by (cases "kill_processes sleep r ?w2")
    have ok2: "procs_ok ?w2" "self_alive ?w2" "my_pid ?w2 = my_pid w"
      using ok f1 by (simp_all add: procs_ok_def self_alive_def)
    have "targets_ok r ?w2"
      using pos list_processes_no_self [OF lp] ok2(3) f1(2) by (force simp: targets_ok_def list_all_iff)
    note eff = kill_processes_effect [OF sl ok2(1,2) this kp]
    note surv = kill_processes_survivor [OF sl ok2(1,2) \<open>targets_ok r ?w2\<close> kp]
    have main: "kill_main sleep args w = (if failed \<noteq> [] then
        (Exit 2, print_line (''Some PIDs could not be killed: '' @ py_repr_int_list failed) w3)
      else (Exit 0, print_line ''All matching processes terminated.'' w3))"
      by (rule kill_main_kill [OF k p lp False kp])
    have gone: "map_of (procs w3) (fst x) = None" if "failed = []" "x \<in> set r" for x
    proof (cases "map_of (procs w3) (fst x)")
      case (Some q)
      then have "(fst x, q) \<in> set (procs w3)" by (rule map_of_SomeD)
      with surv that show ?thesis by auto
    qed
    show ?thesis using main run eff(2) gone by (auto split: if_splits)
  qed
qed

theorem kill_main_exit_zero_witness:
  "fst (kill_main id \<lparr>arg_ports = [], arg_kill = True\<rparr> sel_demo_world) = Exit 0
   \<and> map_of (procs (snd (kill_main id \<lparr>arg_ports = [], arg_kill = True\<rparr> sel_demo_world))) 200 = None
   \<and> map_of (procs (snd (kill_main id \<lparr>arg_ports = [], arg_kill = True\<rparr> sel_demo_world))) 400 = None
   \<and> self_alive (snd (kill_main id \<lparr>arg_ports = [], arg_kill = True\<rparr> sel_demo_world))"
proof -
  let ?A = "\<lparr>arg_ports = [], arg_kill = True\<rparr>"
  have ok: "procs_ok sel_demo_world" "self_alive sel_demo_world"
    by (simp_all add: sel_demo_world_def procs_ok_def self_alive_def)
  have p: "parse_ports [] sel_demo_world = ([], sel_demo_world)" by (simp add: parse_ports_def)
  have run: "kill_main id ?A sel_demo_world = (fst (kill_main id ?A sel_demo_world), snd (kill_main id ?A sel_demo_world))"
    by simp
  have e: "fst (kill_main id ?A sel_demo_world) = Exit 0"
    by (simp only: kill_main_def p sel_demo_run prod.case sum.case cli_args.select_convs)
      (simp add: Let_def kill_processes_def term_one_def kill_one_def process_alive_def os_kill_def
        kill_targets_def self_alive_def print_line_def survives_def sel_demo_world_def)
  show ?thesis
    using kill_main_exit_zero [OF sleep_ok_id ok _ _ sel_demo_run _ run] e p by simp
qed

end
